theory Spec2Isabelle
  imports Main "HOL-Library.Sublist"
begin

section \<open>Python strings\<close>

text \<open>
  The four scripts under \<^verbatim>\<open>src/scripts\<close> work on whole file texts with Python's
  \<^verbatim>\<open>str\<close> methods and with \<^verbatim>\<open>re.sub\<close>. A text is a \<^typ>\<open>string\<close>; a character is a
  code point below 256. The line feed is \<^term>\<open>CHR 0x0A\<close>.
\<close>

definition isspace :: "char \<Rightarrow> bool" where
  \<comment> \<open>\<^verbatim>\<open>str.isspace\<close> on one character: code points 9-13, 28-32, 133 and 160.\<close>
  "isspace c = ((of_char c :: nat) \<in> set [9, 10, 11, 12, 13, 28, 29, 30, 31, 32, 133, 160])"

definition strip :: "string \<Rightarrow> string" where
  \<comment> \<open>\<^verbatim>\<open>s.strip()\<close>: leading and trailing whitespace removed.\<close>
  "strip s = rev (dropWhile isspace (rev (dropWhile isspace s)))"

definition contains :: "string \<Rightarrow> string \<Rightarrow> bool" where
  \<comment> \<open>\<^verbatim>\<open>p in s\<close>: \<open>p\<close> occurs in \<open>s\<close> as a contiguous piece.\<close>
  "contains p s = sublist p s"

definition startswith :: "string \<Rightarrow> string \<Rightarrow> bool" where
  "startswith s p = prefix p s"

definition startswith_any :: "string \<Rightarrow> string list \<Rightarrow> bool" where
  \<comment> \<open>\<^verbatim>\<open>s.startswith((p1, p2, ...))\<close>\<close>
  "startswith_any s ps = list_ex (\<lambda>p. prefix p s) ps"

definition endswith_any :: "string \<Rightarrow> string list \<Rightarrow> bool" where
  \<comment> \<open>\<^verbatim>\<open>s.endswith((p1, p2, ...))\<close>\<close>
  "endswith_any s ps = list_ex (\<lambda>p. suffix p s) ps"

fun split_nl :: "string \<Rightarrow> string list" where
  \<comment> \<open>\<^verbatim>\<open>s.split('\n')\<close>; the result is never empty (the second case of the inner
     \<open>case\<close> cannot arise).\<close>
  "split_nl [] = [[]]"
| "split_nl (c # cs) =
     (if c = CHR 0x0A then [] # split_nl cs
      else (case split_nl cs of l # ls \<Rightarrow> (c # l) # ls | [] \<Rightarrow> [[c]]))"

fun join_nl :: "string list \<Rightarrow> string" where
  \<comment> \<open>\<^verbatim>\<open>'\n'.join(ls)\<close>\<close>
  "join_nl [] = []"
| "join_nl [l] = l"
| "join_nl (l # ls) = l @ CHR 0x0A # join_nl ls"

fun replace :: "string \<Rightarrow> string \<Rightarrow> string \<Rightarrow> string" where
  \<comment> \<open>\<^verbatim>\<open>s.replace(old, new)\<close>: every occurrence of \<open>old\<close>, found left to right and not
     overlapping; an empty \<open>old\<close> matches before every character and at the end.\<close>
  "replace [] old new = (if old = [] then new else [])"
| "replace (c # cs) old new =
     (if old = [] then new @ c # replace cs old new
      else if prefix old (c # cs) then new @ replace (drop (length old) (c # cs)) old new
      else c # replace cs old new)"

fun str_find :: "string \<Rightarrow> string \<Rightarrow> int" where
  \<comment> \<open>\<^verbatim>\<open>s.find(p)\<close>: the first index where \<open>p\<close> occurs, or -1.\<close>
  "str_find [] p = (if p = [] then 0 else - 1)"
| "str_find (c # cs) p =
     (if prefix p (c # cs) then 0
      else (let k = str_find cs p in if k = - 1 then - 1 else k + 1))"

section \<open>Regular expressions: \<^verbatim>\<open>re.sub\<close>\<close>

text \<open>
  The patterns of the scripts use literal characters, character sets, \<^verbatim>\<open>\s\<close>, \<^verbatim>\<open>\w\<close>,
  \<^verbatim>\<open>\b\<close>, concatenation, alternation, the greedy \<^verbatim>\<open>*\<close> and \<^verbatim>\<open>+\<close>, capturing groups and one
  lookahead. A pattern is a term of \<open>regex\<close>; a group carries its number. \<open>ms r m\<close> lists
  the states in which a match of \<open>r\<close> begun in state \<open>m\<close> can end, in the order in which a
  backtracking matcher tries them, so the head of the list is the match Python reports.
  A state is the character \<open>prior\<close> to the position, the text \<open>after\<close> it, and the
  groups captured so far (latest first).
\<close>

definition isword :: "char \<Rightarrow> bool" where
  \<comment> \<open>\<^verbatim>\<open>\w\<close> on one character: the code points below 256 that Python counts as
     alphanumeric, and the underscore.\<close>
  "isword c =
     (let n = (of_char c :: nat)
      in (48 \<le> n \<and> n \<le> 57) \<or> (65 \<le> n \<and> n \<le> 90) \<or> n = 95 \<or> (97 \<le> n \<and> n \<le> 122) \<or>
         n \<in> set [170, 178, 179, 181, 185, 186, 188, 189, 190] \<or>
         (192 \<le> n \<and> n \<le> 214) \<or> (216 \<le> n \<and> n \<le> 246) \<or> 248 \<le> n)"

datatype regex =
    Eps                 \<comment> \<open>the empty pattern\<close>
  | Chr char            \<comment> \<open>one literal character\<close>
  | OneOf string        \<comment> \<open>\<^verbatim>\<open>[...]\<close>\<close>
  | NoneOf string       \<comment> \<open>\<^verbatim>\<open>[^...]\<close>\<close>
  | Wsp                 \<comment> \<open>\<^verbatim>\<open>\s\<close>\<close>
  | Wrd                 \<comment> \<open>\<^verbatim>\<open>\w\<close>\<close>
  | Bnd                 \<comment> \<open>\<^verbatim>\<open>\b\<close>\<close>
  | Cat regex regex     \<comment> \<open>one pattern after the other\<close>
  | Alt regex regex     \<comment> \<open>\<^verbatim>\<open>a|b\<close>, the left side tried first\<close>
  | Star regex          \<comment> \<open>the greedy \<^verbatim>\<open>*\<close>\<close>
  | Grp nat regex       \<comment> \<open>the capturing group with this number\<close>
  | Ahead regex         \<comment> \<open>\<^verbatim>\<open>(?=...)\<close>\<close>

record mstate =
  prior :: "char option"
  after :: string
  caps :: "(nat \<times> string) list"

definition eat :: "(char \<Rightarrow> bool) \<Rightarrow> mstate \<Rightarrow> mstate list" where
  \<comment> \<open>one character that satisfies \<open>P\<close> is consumed\<close>
  "eat P m = (case after m of [] \<Rightarrow> [] | c # cs \<Rightarrow> if P c then [m\<lparr>prior := Some c, after := cs\<rparr>] else [])"

definition at_boundary :: "mstate \<Rightarrow> bool" where
  \<comment> \<open>\<^verbatim>\<open>\b\<close>: a word character on exactly one side of the position; the start and the end
     of the text count as no word character.\<close>
  "at_boundary m =
     ((case prior m of None \<Rightarrow> False | Some c \<Rightarrow> isword c) \<noteq>
      (case after m of [] \<Rightarrow> False | c # _ \<Rightarrow> isword c))"

function ms :: "regex \<Rightarrow> mstate \<Rightarrow> mstate list" where
  \<comment> \<open>A greedy \<^verbatim>\<open>*\<close> tries one more round first and the empty round last; a round that
     consumes nothing is dropped, as Python drops it. A lookahead consumes nothing and is
     not re-entered on backtracking.\<close>
  "ms Eps m = [m]"
| "ms (Chr c) m = eat (\<lambda>x. x = c) m"
| "ms (OneOf cs) m = eat (\<lambda>x. x \<in> set cs) m"
| "ms (NoneOf cs) m = eat (\<lambda>x. x \<notin> set cs) m"
| "ms Wsp m = eat isspace m"
| "ms Wrd m = eat isword m"
| "ms Bnd m = (if at_boundary m then [m] else [])"
| "ms (Cat a b) m = concat (map (\<lambda>m'. ms b m') (ms a m))"
| "ms (Alt a b) m = ms a m @ ms b m"
| "ms (Star a) m =
     concat (map (\<lambda>m'. if length (after m') < length (after m) then ms (Star a) m' else [])
               (ms a m)) @ [m]"
| "ms (Grp n a) m =
     map (\<lambda>m'. m'\<lparr>caps := (n, take (length (after m) - length (after m')) (after m)) # caps m'\<rparr>)
       (ms a m)"
| "ms (Ahead a) m = (case ms a m of [] \<Rightarrow> [] | m' # _ \<Rightarrow> [m\<lparr>caps := caps m'\<rparr>])"
  by pat_completeness auto
termination
  by (relation "measures [\<lambda>(r, m). size r, \<lambda>(r, m). length (after m)]") auto

definition lit :: "string \<Rightarrow> regex" where
  \<comment> \<open>a pattern without special characters: the text itself\<close>
  "lit s = foldr (\<lambda>c r. Cat (Chr c) r) s Eps"

definition seq :: "regex list \<Rightarrow> regex" where
  \<comment> \<open>the parts of a pattern, one after the other\<close>
  "seq rs = foldr Cat rs Eps"

definition plus :: "regex \<Rightarrow> regex" where
  \<comment> \<open>the greedy \<^verbatim>\<open>+\<close>\<close>
  "plus r = Cat r (Star r)"

declare ms.simps [simp del]

text \<open>
  A replacement is a list of pieces: text, and references \<^verbatim>\<open>\1\<close>, \<^verbatim>\<open>\2\<close> to groups. A group
  that took no part in the match expands to the empty text.
\<close>

datatype piece = Txt string | Ref nat

fun expand :: "piece list \<Rightarrow> (nat \<times> string) list \<Rightarrow> string" where
  "expand [] g = []"
| "expand (Txt s # t) g = s @ expand t g"
| "expand (Ref n # t) g = (case map_of g n of None \<Rightarrow> [] | Some x \<Rightarrow> x) @ expand t g"

definition match_at :: "regex \<Rightarrow> bool \<Rightarrow> char option \<Rightarrow> string \<Rightarrow> mstate option" where
  \<comment> \<open>The match of \<open>r\<close> that starts at the position with \<open>p\<close> before it and \<open>s\<close> after it:
     the first end state in backtracking order. With \<open>must_advance\<close> an empty match is
     passed over; \<^verbatim>\<open>re.sub\<close> asks for that at the position where an empty match has just
     been replaced.\<close>
  "match_at r must_advance p s =
     List.find (\<lambda>m. if must_advance then length (after m) < length s else True)
       (ms r \<lparr>prior = p, after = s, caps = []\<rparr>)"

fun re_search :: "regex \<Rightarrow> bool \<Rightarrow> char option \<Rightarrow> string \<Rightarrow> (string \<times> mstate) option" where
  \<comment> \<open>The leftmost position of \<open>s\<close> with a match: the text passed over and the end state of
     the match. \<open>must_advance\<close> holds for the first position only.\<close>
  "re_search r must_advance p [] =
     (case match_at r must_advance p [] of None \<Rightarrow> None | Some m \<Rightarrow> Some ([], m))"
| "re_search r must_advance p (c # cs) =
     (case match_at r must_advance p (c # cs) of
        Some m \<Rightarrow> Some ([], m)
      | None \<Rightarrow>
         (case re_search r False (Some c) cs of
            None \<Rightarrow> None
          | Some (u, m) \<Rightarrow> Some (c # u, m)))"

text \<open>
  The search can only end at or after the position where it began, and after it when an
  empty match is refused; this is what makes the loop of \<^verbatim>\<open>re.sub\<close> end.
\<close>

lemma eat_rest: "m' \<in> set (eat P m) \<Longrightarrow> length (after m') < length (after m)"
  by (cases "after m") (auto simp: eat_def split: if_splits)

lemma ms_rest: "m' \<in> set (ms r m) \<Longrightarrow> length (after m') \<le> length (after m)"
proof (induction r m arbitrary: m' rule: ms.induct)
  case (1 m)
  then show ?case by (simp add: ms.simps(1))
next
  case (2 c m)
  then show ?case by (auto simp: ms.simps(2) dest: eat_rest)
next
  case (3 cs m)
  then show ?case by (auto simp: ms.simps(3) dest: eat_rest)
next
  case (4 cs m)
  then show ?case by (auto simp: ms.simps(4) dest: eat_rest)
next
  case (5 m)
  then show ?case by (auto simp: ms.simps(5) dest: eat_rest)
next
  case (6 m)
  then show ?case by (auto simp: ms.simps(6) dest: eat_rest)
next
  case (7 m)
  then show ?case by (simp add: ms.simps(7) split: if_splits)
next
  case (8 a b m)
  from "8.prems" obtain x where x: "x \<in> set (ms a m)" and m': "m' \<in> set (ms b x)"
    unfolding ms.simps(8) by auto
  from "8.IH"(1) [OF x] "8.IH"(2) [OF x m'] show ?case by simp
next
  case (9 a b m)
  from "9.prems" have "m' \<in> set (ms a m) \<or> m' \<in> set (ms b m)"
    unfolding ms.simps(9) by simp
  with "9.IH" show ?case by blast
next
  case (10 a m)
  from "10.prems" have "m' = m \<or> (\<exists>x \<in> set (ms a m). length (after x) < length (after m) \<and>
      m' \<in> set (ms (Star a) x))"
    unfolding ms.simps(10) [of a m] by (auto split: if_splits)
  then show ?case
  proof
    assume "m' = m"
    then show ?thesis by simp
  next
    assume "\<exists>x \<in> set (ms a m). length (after x) < length (after m) \<and> m' \<in> set (ms (Star a) x)"
    then obtain x where x: "x \<in> set (ms a m)" "length (after x) < length (after m)"
      "m' \<in> set (ms (Star a) x)" by blast
    from "10.IH"(2) [OF x] x(2) show ?thesis by simp
  qed
next
  case (11 n a m)
  from "11.prems" obtain x where x: "x \<in> set (ms a m)" and r: "after m' = after x"
    unfolding ms.simps(11) by auto
  from "11.IH" [OF x] r show ?case by simp
next
  case (12 a m)
  from "12.prems" have "after m' = after m"
    unfolding ms.simps(12) by (auto split: list.splits)
  then show ?case by simp
qed

lemma match_at_rest:
  assumes "match_at r adv p s = Some m"
  shows "length (after m) \<le> length s" and "adv \<Longrightarrow> length (after m) < length s"
proof -
  from assms have in_ms: "m \<in> set (ms r \<lparr>prior = p, after = s, caps = []\<rparr>)"
    and ok: "if adv then length (after m) < length s else True"
    by (auto simp: match_at_def find_Some_iff)
  from ms_rest [OF in_ms] show "length (after m) \<le> length s" by simp
  from ok show "adv \<Longrightarrow> length (after m) < length s" by simp
qed

lemma re_search_bound:
  "re_search r adv p s = Some (u, m) \<Longrightarrow>
     length u + length (after m) \<le> length s \<and> (adv \<longrightarrow> length (after m) < length s)"
proof (induction s arbitrary: adv p u m)
  case Nil
  then show ?case by (auto split: option.splits dest: match_at_rest)
next
  case (Cons c cs)
  show ?case
  proof (cases "match_at r adv p (c # cs)")
    case (Some m0)
    with Cons.prems have "u = []" "m = m0" by auto
    with Some show ?thesis by (auto dest: match_at_rest)
  next
    case None
    with Cons.prems obtain u' where r: "re_search r False (Some c) cs = Some (u', m)" and u: "u = c # u'"
      by (auto split: option.splits)
    from Cons.IH [OF r] u show ?thesis by auto
  qed
qed

function sub_loop :: "regex \<Rightarrow> piece list \<Rightarrow> bool \<Rightarrow> char option \<Rightarrow> string \<Rightarrow> string" where
  \<comment> \<open>The loop of \<^verbatim>\<open>re.sub\<close>: copy the text up to the next match, put the expanded
     replacement, go on after the match; the rest is copied when no match is left.\<close>
  "sub_loop r t must_advance p s =
     (case re_search r must_advance p s of
        None \<Rightarrow> s
      | Some (u, m) \<Rightarrow>
          u @ expand t (caps m) @
          sub_loop r t (length u + length (after m) = length s) (prior m) (after m))"
  by pat_completeness auto
termination
proof (relation "measure (\<lambda>(r, t, adv, p, s). 2 * length s + (if adv then 0 else 1))", goal_cases)
  case 1
  show ?case by simp
next
  case (2 r t adv p s x u m)
  then have "re_search r adv p s = Some (u, m)" by simp
  from re_search_bound [OF this] show ?case by auto
qed

declare sub_loop.simps [simp del]

definition re_sub :: "regex \<Rightarrow> piece list \<Rightarrow> string \<Rightarrow> string" where
  \<comment> \<open>\<^verbatim>\<open>re.sub(pattern, replacement, content)\<close>\<close>
  "re_sub r t s = sub_loop r t False None s"

section \<open>Files and console\<close>

text \<open>
  The scripts read and write whole files and print progress lines. The state they act on
  is the content of every file, the list of paths opened for writing (in order), and the
  lines printed. A path names a regular file or nothing. A script that ends by an
  uncaught exception yields the exception together with the state it leaves behind.
  A file is the text Python reads from it: the translation of line ends done by text
  mode is left out. The line \<^verbatim>\<open>Fixed: ...\<close> is recorded with the path as the script holds
  it, where the script prints it relative to the working directory.
\<close>

type_synonym path = string

datatype message =
    Applying_final_build_fixes
  | Fixed_const_reassignments path
  | Fixed_syntax_error
  | Final_build_fixes_completed
  | Run_npm_build
  | Applying_final_typescript_fixes
  | Fixed path
  | Typescript_fixes_completed
  | Files_fixed int
  | Run_npm_lint
  | Fixing_router_patterns
  | Fixed_router_patterns
  | Fixed_tenant_patterns
  | All_regex_fixes_completed
  | Fixing_const_errors
  | Fixing path
  | Applied_fix path
  | No_match_found path
  | Added_declaration path
  | File_not_found path
  | Const_error_fixes_completed

datatype error = FileNotFoundError path | OSError path

record world =
  files :: "path \<Rightarrow> string option"
  writes :: "path list"
  console :: "message list"

definition print :: "message \<Rightarrow> world \<Rightarrow> world" where
  "print m w = w\<lparr>console := console w @ [m]\<rparr>"

definition path_exists :: "world \<Rightarrow> path \<Rightarrow> bool" where
  \<comment> \<open>\<^verbatim>\<open>os.path.exists(p)\<close>\<close>
  "path_exists w p = (files w p \<noteq> None)"

definition read_file :: "world \<Rightarrow> path \<Rightarrow> error + string" where
  \<comment> \<open>\<^verbatim>\<open>with open(p, 'r') as f: content = f.read()\<close>\<close>
  "read_file w p = (case files w p of None \<Rightarrow> Inl (FileNotFoundError p) | Some content \<Rightarrow> Inr content)"

definition open_w :: "path \<Rightarrow> world \<Rightarrow> world" where
  \<comment> \<open>\<^verbatim>\<open>open(p, 'w')\<close>: the file is created, or cut to length zero, before anything is
     written to it.\<close>
  "open_w p w = w\<lparr>files := (files w)(p \<mapsto> []), writes := writes w @ [p]\<rparr>"

definition f_write :: "path \<Rightarrow> string \<Rightarrow> world \<Rightarrow> world" where
  \<comment> \<open>\<^verbatim>\<open>f.write(data)\<close> on the open file: \<open>data\<close> goes after what the file holds.\<close>
  "f_write p data w =
     w\<lparr>files := (files w)(p \<mapsto> (case files w p of None \<Rightarrow> data | Some old \<Rightarrow> old @ data))\<rparr>"

definition write_file :: "path \<Rightarrow> string \<Rightarrow> world \<Rightarrow> world" where
  \<comment> \<open>\<^verbatim>\<open>with open(p, 'w') as f: f.write(content)\<close>, when no input/output error occurs.\<close>
  "write_file p content w = f_write p content (open_w p w)"

datatype io_fault = No_fault | Open_fails | Write_fails nat

definition write_file_io :: "io_fault \<Rightarrow> path \<Rightarrow> string \<Rightarrow> world \<Rightarrow> (error \<times> world) + world" where
  \<comment> \<open>The same two steps under an input/output error: \<open>Open_fails\<close> raises in
     \<^verbatim>\<open>open\<close>, before the file is touched; \<open>Write_fails n\<close> raises in \<^verbatim>\<open>f.write\<close> after the
     file was opened and \<open>n\<close> characters reached it. No script catches the exception.\<close>
  "write_file_io fault p content w =
     (case fault of
        No_fault \<Rightarrow> Inr (write_file p content w)
      | Open_fails \<Rightarrow> Inl (OSError p, w)
      | Write_fails n \<Rightarrow> Inl (OSError p, f_write p (take n content) (open_w p w)))"

fun os_path_join :: "path \<Rightarrow> path \<Rightarrow> path" where
  \<comment> \<open>\<^verbatim>\<open>os.path.join(a, b)\<close> on POSIX\<close>
  "os_path_join a b =
     (if prefix ''/'' b then b
      else if a = [] \<or> suffix ''/'' a then a @ b
      else a @ ''/'' @ b)"

declare os_path_join.simps [simp del]

definition final_world :: "(error \<times> world) + world \<Rightarrow> world" where
  \<comment> \<open>the state a run leaves behind, however it ends\<close>
  "final_world r = (case r of Inl (e, w) \<Rightarrow> w | Inr w \<Rightarrow> w)"

definition raised :: "(error \<times> world) + world \<Rightarrow> error option" where
  \<comment> \<open>the exception that escapes, if any\<close>
  "raised r = (case r of Inl (e, w) \<Rightarrow> Some e | Inr w \<Rightarrow> None)"

definition project_root :: "path \<Rightarrow> path" where
  \<comment> \<open>\<^verbatim>\<open>os.path.join(os.path.dirname(__file__), '..')\<close>; the argument is the directory of
     the script.\<close>
  "project_root script_dir = os_path_join script_dir ''..''"

section \<open>\<^verbatim>\<open>final-build-fixes.py\<close>: the \<^verbatim>\<open>} else {\<close> repair of flow-nodes.ts\<close>

function find_if :: "string list \<Rightarrow> int \<Rightarrow> int" where
  \<comment> \<open>\<^verbatim>\<open>while j >= 0 and 'if (' not in lines[j]: j -= 1\<close>; the result is the final \<open>j\<close>.\<close>
  "find_if lines j =
     (if j \<ge> 0 \<and> \<not> contains ''if ('' (lines ! nat j) then find_if lines (j - 1) else j)"
  by pat_completeness auto
termination
  by (relation "measure (\<lambda>(lines, j). nat (j + 1))") auto

declare find_if.simps [simp del]

definition fixed_section :: "string \<Rightarrow> string list" where
  "fixed_section if_condition =
     [if_condition,
      ''        const nodes = await this.getTemplateNodes(templateId);'',
      ''      } else {'',
      ''        const nodes = await this.getTenantFlowNodes(undefined, 1000);'',
      ''      }'']"

definition else_context :: "string list \<Rightarrow> nat \<Rightarrow> bool" where
  \<comment> \<open>The three nested tests on line \<open>i\<close> and the line before it. Every branch in which
     one of them fails falls through to the same \<^verbatim>\<open>fixed_lines.append(line)\<close>.\<close>
  "else_context lines i =
     (contains ''} else {'' (lines ! i) \<and> i > 0 \<and>
      (let prev_line = strip (lines ! (i - 1))
       in prev_line \<noteq> [] \<and> \<not> endswith_any prev_line ['';'', ''}'', ''{''] \<and>
          (contains ''const nodes'' prev_line \<or> contains ''nodes ='' prev_line)))"

function fix_loop :: "string list \<Rightarrow> nat \<Rightarrow> string list \<Rightarrow> string list" where
  \<comment> \<open>\<^verbatim>\<open>while i < len(lines)\<close>, with the index \<open>i\<close> and the list \<open>fixed_lines\<close> as the
     state; the value is \<open>fixed_lines\<close> when the loop ends.\<close>
  "fix_loop lines i fixed_lines =
     (if i < length lines then
        (if else_context lines i \<and> find_if lines (int i - 1) \<ge> 0 then
           fix_loop lines (i + 2)
             (fixed_lines @ fixed_section (strip (lines ! nat (find_if lines (int i - 1)))))
         else fix_loop lines (i + 1) (fixed_lines @ [lines ! i]))
      else fixed_lines)"
  by pat_completeness auto
termination
  by (relation "measure (\<lambda>(lines, i, fixed_lines). length lines - i)") auto

declare fix_loop.simps [simp del]

definition fixed_content_of :: "string \<Rightarrow> string" where
  \<comment> \<open>\<^verbatim>\<open>fixed_content\<close> as a function of the \<^verbatim>\<open>content\<close> read from flow-nodes.ts.\<close>
  "fixed_content_of content = join_nl (fix_loop (split_nl content) 0 [])"

definition fix_flow_nodes :: "path \<Rightarrow> world \<Rightarrow> world" where
  \<comment> \<open>The second part of \<^verbatim>\<open>main\<close>: flow-nodes.ts is written only when the text changed.\<close>
  "fix_flow_nodes script_dir w =
     (let flow_nodes_path = os_path_join (project_root script_dir) ''src/lib/api/flow-nodes.ts''
      in case files w flow_nodes_path of
           None \<Rightarrow> w
         | Some content \<Rightarrow>
            (let fixed_content = fixed_content_of content
             in if fixed_content \<noteq> content then
                  print Fixed_syntax_error (write_file flow_nodes_path fixed_content w)
                else w))"

definition quotes :: string where
  \<comment> \<open>the single and the double quote\<close>
  "quotes = [CHR 0x27, CHR 0x22]"

definition filterExpression_pattern :: regex where
  \<comment> \<open>\<^verbatim>\<open>const\s+filterExpression\s*=\s*['"][^'"]*['"];\<close>\<close>
  "filterExpression_pattern =
     seq [lit ''const'', plus Wsp, lit ''filterExpression'', Star Wsp, lit ''='', Star Wsp,
          OneOf quotes, Star (NoneOf quotes), OneOf quotes, lit '';'']"

definition totalDuration_pattern :: regex where
  \<comment> \<open>\<^verbatim>\<open>const\s+totalDuration\s*=\s*0;\<close>\<close>
  "totalDuration_pattern =
     seq [lit ''const'', plus Wsp, lit ''totalDuration'', Star Wsp, lit ''='', Star Wsp, lit ''0;'']"

definition completedRuns_pattern :: regex where
  \<comment> \<open>\<^verbatim>\<open>const\s+completedRuns\s*=\s*0;\<close>\<close>
  "completedRuns_pattern =
     seq [lit ''const'', plus Wsp, lit ''completedRuns'', Star Wsp, lit ''='', Star Wsp, lit ''0;'']"

definition fix_const_text :: "string \<Rightarrow> string" where
  \<comment> \<open>The three \<^verbatim>\<open>re.sub\<close> calls of the first loop, on the \<^verbatim>\<open>content\<close> read.\<close>
  "fix_const_text content =
     (let content1 = re_sub filterExpression_pattern
                       [Txt (''let filterExpression = '' @ [CHR 0x27, CHR 0x27] @ '';'')] content;
          content2 = re_sub totalDuration_pattern [Txt ''let totalDuration = 0;''] content1
      in re_sub completedRuns_pattern [Txt ''let completedRuns = 0;''] content2)"

definition files_to_fix_const :: "path list" where
  "files_to_fix_const = [''src/lib/api/agent-templates.ts'', ''src/lib/api/lab.ts'']"

definition fix_const_file :: "path \<Rightarrow> path \<Rightarrow> world \<Rightarrow> world" where
  \<comment> \<open>The body of \<^verbatim>\<open>for file_path in files_to_fix_const\<close>.\<close>
  "fix_const_file script_dir file_path w =
     (let full_path = os_path_join (project_root script_dir) file_path
      in case files w full_path of
           None \<Rightarrow> w
         | Some original_content \<Rightarrow>
            (let content = fix_const_text original_content
             in if content \<noteq> original_content then
                  print (Fixed_const_reassignments file_path) (write_file full_path content w)
                else w))"

definition build_main :: "path \<Rightarrow> world \<Rightarrow> world" where
  \<comment> \<open>\<^verbatim>\<open>main\<close> of final-build-fixes.py\<close>
  "build_main script_dir w =
     (let w1 = print Applying_final_build_fixes w;
          w2 = foldl (\<lambda>w file_path. fix_const_file script_dir file_path w) w1 files_to_fix_const;
          w3 = fix_flow_nodes script_dir w2
      in print Run_npm_build (print Final_build_fixes_completed w3))"

section \<open>\<^verbatim>\<open>final-typescript-fixes.py\<close>: wrapping case declarations\<close>

fun wrap_cases :: "bool \<Rightarrow> string list \<Rightarrow> string list" where
  \<comment> \<open>\<^verbatim>\<open>for i, line in enumerate(lines)\<close> with the flag \<open>in_switch\<close> as the state; the head
     of \<open>rest\<close> is \<^verbatim>\<open>lines[i + 1]\<close>. The value is what the loop appends to
     \<^verbatim>\<open>fixed_lines\<close> from this line on.\<close>
  "wrap_cases in_switch [] = []"
| "wrap_cases in_switch (line # rest) =
     (if contains ''switch'' line \<and> contains ''{'' line then line # wrap_cases True rest
      else if in_switch \<and> contains ''}'' line \<and> \<not> contains ''case'' line then
        line # wrap_cases False rest
      else if in_switch \<and> startswith (strip line) ''case'' \<and> contains '':'' line then
        (case rest of
           [] \<Rightarrow> line # wrap_cases in_switch rest
         | nxt # _ \<Rightarrow>
            (let next_line = strip nxt
             in if startswith_any next_line [''const '', ''let '', ''var ''] then
                  line # replace nxt next_line ''        {'' # (''        '' @ next_line) #
                    wrap_cases in_switch rest
                else line # wrap_cases in_switch rest))
      else line # wrap_cases in_switch rest)"

definition wrap_case_declarations :: "string \<Rightarrow> string" where
  \<comment> \<open>The text written back to the observatory handler, from the \<^verbatim>\<open>content\<close> read.\<close>
  "wrap_case_declarations content = join_nl (wrap_cases False (split_nl content))"

definition fix_observatory :: "path \<Rightarrow> world \<times> int \<Rightarrow> world \<times> int" where
  \<comment> \<open>The last block of \<^verbatim>\<open>main\<close>, on the state and \<^verbatim>\<open>fixed_count\<close>: the file is written
     and counted whenever it exists.\<close>
  "fix_observatory script_dir st =
     (let w = fst st; fixed_count = snd st;
          observatory_path = os_path_join (project_root script_dir) ''lambda/observatory-api/handler.ts''
      in case files w observatory_path of
           None \<Rightarrow> (w, fixed_count)
         | Some content \<Rightarrow>
            (print (Fixed observatory_path)
               (write_file observatory_path (wrap_case_declarations content) w),
             fixed_count + 1))"

section \<open>\<^verbatim>\<open>final-typescript-fixes.py\<close>: \<^verbatim>\<open>fix_file\<close> and \<^verbatim>\<open>main\<close>\<close>

fun apply_patterns :: "(regex \<times> piece list) list \<Rightarrow> string \<Rightarrow> string" where
  \<comment> \<open>\<^verbatim>\<open>for pattern, replacement in patterns: content = re.sub(pattern, replacement, content)\<close>\<close>
  "apply_patterns [] content = content"
| "apply_patterns ((pattern, replacement) # patterns) content =
     apply_patterns patterns (re_sub pattern replacement content)"

definition fix_file :: "path \<Rightarrow> (regex \<times> piece list) list \<Rightarrow> world \<Rightarrow> world \<times> bool" where
  "fix_file file_path patterns w =
     (case files w file_path of
        None \<Rightarrow> (w, False)
      | Some original_content \<Rightarrow>
         (let content = apply_patterns patterns original_content
          in if content \<noteq> original_content then
               (print (Fixed file_path) (write_file file_path content w), True)
             else (w, False)))"

definition any_typed :: "string \<Rightarrow> regex" where
  \<comment> \<open>\<^verbatim>\<open>name:\s*any\<close>, the shape of the patterns for one parameter name\<close>
  "any_typed name = seq [lit (name @ '':''), Star Wsp, lit ''any'']"

definition common_patterns :: "(regex \<times> piece list) list" where
  "common_patterns =
     [(seq [Bnd, lit ''any'', Bnd, Ahead (seq [Star Wsp, OneOf '',;)]}''])], [Txt ''unknown'']),
      (seq [lit '':'', Star Wsp, lit ''any'', Star Wsp, lit ''=''], [Txt '': unknown ='']),
      (lit ''<any>'', [Txt ''<unknown>'']),
      (lit ''Array<any>'', [Txt ''Array<unknown>'']),
      (lit ''any[]'', [Txt ''unknown[]''])]"

definition typescript_fixes :: "path \<Rightarrow> (path \<times> (regex \<times> piece list) list) list" where
  \<comment> \<open>the list \<^verbatim>\<open>fixes\<close> of \<^verbatim>\<open>main\<close>\<close>
  "typescript_fixes script_dir =
     [(os_path_join (project_root script_dir) ''lambda/api/handlers/agents.ts'',
        [(any_typed ''body'', [Txt ''body: RequestBody'']),
         (any_typed ''params'', [Txt ''params: Record<string, string>'']),
         (any_typed ''query'', [Txt ''query: Record<string, unknown>'']),
         (any_typed ''event'', [Txt ''event: APIGatewayEvent''])] @ common_patterns),
      (os_path_join (project_root script_dir) ''lambda/api/handlers/analytics.ts'',
        [(any_typed ''event'', [Txt ''event: APIGatewayEvent'']),
         (any_typed ''metrics'', [Txt ''metrics: Record<string, unknown>''])] @ common_patterns),
      (os_path_join (project_root script_dir) ''lambda/api/handlers/billing.ts'',
        [(any_typed ''stripeEvent'',
           [Txt ''stripeEvent: { type: string; data: Record<string, unknown> }''])] @
        common_patterns),
      (os_path_join (project_root script_dir) ''lambda/api/handlers/webhooks.ts'',
        [(any_typed ''payload'', [Txt ''payload: Record<string, unknown>'']),
         (any_typed ''webhook'', [Txt ''webhook: WebhookEvent''])] @ common_patterns),
      (os_path_join (project_root script_dir) ''lambda/api/middleware/auth.ts'',
        [(any_typed ''event'', [Txt ''event: APIGatewayEvent'']),
         (any_typed ''context'', [Txt ''context: APIGatewayContext''])] @ common_patterns),
      (os_path_join (project_root script_dir) ''lambda/api/utils/api.ts'',
        [(any_typed ''data'', [Txt ''data: unknown'']),
         (any_typed ''error'', [Txt ''error: Error | unknown''])] @ common_patterns),
      (os_path_join (project_root script_dir) ''lambda/api/utils/database.ts'',
        [(any_typed ''item'', [Txt ''item: Record<string, unknown>'']),
         (any_typed ''result'', [Txt ''result: QueryResult''])] @ common_patterns),
      (os_path_join (project_root script_dir) ''src/components/auth/AuthComponents.tsx'',
        [(any_typed ''props'', [Txt ''props: Record<string, unknown>'']),
         (lit ''React.FC<any>'', [Txt ''React.FC<Record<string, unknown>>''])] @ common_patterns),
      (os_path_join (project_root script_dir) ''src/hooks/useApiServices.ts'',
        [(any_typed ''response'', [Txt ''response: unknown'']),
         (any_typed ''error'', [Txt ''error: Error | unknown''])] @ common_patterns),
      (os_path_join (project_root script_dir) ''lambda/tests/e2e/experiment-workflow.test.ts'',
        [(seq [lit ''let'', plus Wsp, Grp 1 (Alt (lit ''experimentId'') (lit ''datasetId'')),
               Star Wsp, lit ''=''],
          [Txt ''const '', Ref 1, Txt '' =''])] @ common_patterns)]"

definition apply_fixes :: "(path \<times> (regex \<times> piece list) list) list \<Rightarrow> world \<times> int \<Rightarrow> world \<times> int" where
  \<comment> \<open>\<^verbatim>\<open>for fix in fixes: if fix_file(...): fixed_count += 1\<close>, on the state and the count\<close>
  "apply_fixes fixes st =
     foldl (\<lambda>st fix.
              (let r = fix_file (fst fix) (snd fix) (fst st)
               in (fst r, if snd r then snd st + 1 else snd st)))
       st fixes"

definition empty_extending_interface :: regex where
  \<comment> \<open>\<^verbatim>\<open>interface\s+(\w+)\s+extends\s+([^{]+)\s*{\s*}\<close>\<close>
  "empty_extending_interface =
     seq [lit ''interface'', plus Wsp, Grp 1 (plus Wrd), plus Wsp, lit ''extends'', plus Wsp,
          Grp 2 (plus (NoneOf ''{'')), Star Wsp, lit ''{'', Star Wsp, lit ''}'']"

definition empty_interface :: regex where
  \<comment> \<open>\<^verbatim>\<open>interface\s+(\w+)\s*{\s*}\<close>\<close>
  "empty_interface =
     seq [lit ''interface'', plus Wsp, Grp 1 (plus Wrd), Star Wsp, lit ''{'', Star Wsp, lit ''}'']"

definition fix_agent_types :: "path \<Rightarrow> world \<times> int \<Rightarrow> world \<times> int" where
  \<comment> \<open>The block for the agent-builder types: written and counted whenever the file
     exists.\<close>
  "fix_agent_types script_dir st =
     (let w = fst st; fixed_count = snd st;
          agent_types_path = os_path_join (project_root script_dir) ''src/components/agent-builder/types.ts''
      in case files w agent_types_path of
           None \<Rightarrow> (w, fixed_count)
         | Some content \<Rightarrow>
            (let content1 = re_sub empty_extending_interface
                              [Txt ''type '', Ref 1, Txt '' = '', Ref 2] content;
                 content2 = re_sub empty_interface
                              [Txt ''interface '', Ref 1,
                               Txt ('' {'' @ [CHR 0x0A] @ ''  [key: string]: unknown;'' @ [CHR 0x0A] @ ''}'')]
                              content1
             in (print (Fixed agent_types_path) (write_file agent_types_path content2 w),
                 fixed_count + 1)))"

definition typescript_main :: "path \<Rightarrow> world \<Rightarrow> world" where
  \<comment> \<open>\<^verbatim>\<open>main\<close> of final-typescript-fixes.py\<close>
  "typescript_main script_dir w =
     (let st1 = apply_fixes (typescript_fixes script_dir) (print Applying_final_typescript_fixes w, 0);
          st2 = fix_agent_types script_dir st1;
          st3 = fix_observatory script_dir st2
      in print Run_npm_lint (print (Files_fixed (snd st3)) (print Typescript_fixes_completed (fst st3))))"

section \<open>\<^verbatim>\<open>fix-regex.py\<close>\<close>

definition bs :: string where
  \<comment> \<open>the backslash\<close>
  "bs = [CHR 0x5C]"

definition router_path :: "path \<Rightarrow> path" where
  "router_path script_dir =
     os_path_join (os_path_join (os_path_join (os_path_join script_dir ''..'') ''lambda'') ''api'')
       ''router.ts''"

definition tenant_path :: "path \<Rightarrow> path" where
  "tenant_path script_dir =
     os_path_join (os_path_join (os_path_join (os_path_join (os_path_join script_dir ''..'')
       ''lambda'') ''api'') ''middleware'') ''tenant.ts''"

definition fix_tenant :: "path \<Rightarrow> world \<Rightarrow> world" where
  "fix_tenant script_dir w =
     (if path_exists w (tenant_path script_dir) then
        (case files w (tenant_path script_dir) of
           None \<Rightarrow> w
         | Some tenant_content \<Rightarrow>
            print Fixed_tenant_patterns
              (write_file (tenant_path script_dir) (replace tenant_content (bs @ ''/'') ''/'') w))
      else w)"

definition fix_regex :: "path \<Rightarrow> world \<Rightarrow> (error \<times> world) + world" where
  \<comment> \<open>The module body. router.ts is opened without a test that it exists.\<close>
  "fix_regex script_dir w =
     (let w1 = print Fixing_router_patterns w
      in case read_file w1 (router_path script_dir) of
           Inl e \<Rightarrow> Inl (e, w1)
         | Inr content \<Rightarrow>
            (let content1 = replace content (''[^'' @ bs @ ''/]+'') ''[^/]+'';
                 content2 = replace content1 (''[^'' @ bs @ ''/]'') ''[^/]'';
                 w2 = print Fixed_router_patterns (write_file (router_path script_dir) content2 w1);
                 w3 = fix_tenant script_dir w2
             in Inr (print All_regex_fixes_completed w3)))"

section \<open>\<^verbatim>\<open>fix_final_const_errors.py\<close>\<close>

definition scan_comment_pattern :: regex where
  \<comment> \<open>\<^verbatim>\<open>    // Default to scan with filters\s*\n\s*const filterExpression = \{\};\<close>\<close>
  "scan_comment_pattern =
     seq [lit ''    // Default to scan with filters'', Star Wsp, Chr (CHR 0x0A), Star Wsp,
          lit ''const filterExpression = {};'']"

definition scan_comment_replacement :: "piece list" where
  "scan_comment_replacement =
     [Txt (''    // Default to scan with filters'' @ [CHR 0x0A] @
           ''    let filterExpression: string | object = {};'')]"

definition const_error_fixes :: "(path \<times> regex \<times> piece list) list" where
  \<comment> \<open>the list \<^verbatim>\<open>fixes\<close>: file, search, replace\<close>
  "const_error_fixes =
     [(''src/lib/api/lab.ts'', scan_comment_pattern, scan_comment_replacement),
      (''src/lib/api/flow-nodes.ts'', scan_comment_pattern, scan_comment_replacement),
      (''src/lib/api/dynamodb-client.ts'', lit ''const dynamodbClient = null;'',
         [Txt ''let dynamodbClient: DynamoDBDocumentClient | null = null;'']),
      (''src/lib/api/lab.ts'', lit ''const expressionAttributeValues: Record<string, any> = {};'',
         [Txt ''const expressionAttributeValues: Record<string, any> = {};'']),
      (''src/lib/api/flow-nodes.ts'', lit ''const expressionAttributeValues: Record<string, any> = {};'',
         [Txt ''const expressionAttributeValues: Record<string, any> = {};''])]"

definition add_declaration :: "path \<Rightarrow> string \<Rightarrow> world \<Rightarrow> world" where
  \<comment> \<open>The block under \<^verbatim>\<open>if 'lab.ts' in file_path\<close>, and the equal one for flow-nodes.ts:
     guarded by two tests on the whole \<^verbatim>\<open>content\<close>, the declaration is put before the
     comment.\<close>
  "add_declaration file_path content w =
     (if contains ''expressionAttributeValues['' content \<and>
         \<not> contains ''const expressionAttributeValues:'' content then
        (let search_pos = str_find content ''// Default to scan with filters''
         in if search_pos \<noteq> - 1 then
              (let lines = split_nl (take (nat search_pos) content);
                   insert_pos = length (join_nl lines);
                   new_content = take insert_pos content @ [CHR 0x0A] @
                     ''    const expressionAttributeValues: Record<string, any> = {};'' @ [CHR 0x0A] @
                     drop insert_pos content
               in print (Added_declaration file_path) (write_file file_path new_content w))
            else w)
      else w)"

definition check_manually :: "path \<Rightarrow> string \<Rightarrow> world \<Rightarrow> world" where
  \<comment> \<open>the \<^verbatim>\<open>else\<close> branch after \<^verbatim>\<open>No match found\<close>\<close>
  "check_manually file_path content w =
     (let w1 = (if contains ''lab.ts'' file_path then add_declaration file_path content w else w)
      in if contains ''flow-nodes.ts'' file_path then add_declaration file_path content w1 else w1)"

definition apply_fix :: "path \<times> regex \<times> piece list \<Rightarrow> world \<Rightarrow> world" where
  \<comment> \<open>the body of \<^verbatim>\<open>for fix in fixes\<close>\<close>
  "apply_fix fix w =
     (let file_path = fst fix; search = fst (snd fix); replacement = snd (snd fix)
      in case files w file_path of
           None \<Rightarrow> print (File_not_found file_path) w
         | Some content \<Rightarrow>
            (let w1 = print (Fixing file_path) w;
                 new_content = re_sub search replacement content
             in if new_content \<noteq> content then
                  print (Applied_fix file_path) (write_file file_path new_content w1)
                else check_manually file_path content (print (No_match_found file_path) w1)))"

definition fix_const_errors :: "world \<Rightarrow> world" where
  "fix_const_errors w = foldl (\<lambda>w fix. apply_fix fix w) w const_error_fixes"

definition const_errors_main :: "world \<Rightarrow> world" where
  "const_errors_main w =
     print Const_error_fixes_completed (fix_const_errors (print Fixing_const_errors w))"

section \<open>The scripts under input/output errors\<close>

text \<open>
  Every write of every script is \<^verbatim>\<open>with open(path, 'w') as f: f.write(content)\<close>, and no script
  catches an exception. Here each function that writes is given once more, with the
  answer of the system to each write as a parameter: for the state and the path of a write
  it says whether the write goes through, whether \<^verbatim>\<open>open\<close> raises, or whether \<^verbatim>\<open>f.write\<close>
  raises after some characters. An exception ends the run; the result is then the
  exception and the state left behind. Apart from the write each function is the one
  given above.
\<close>

type_synonym faults = "world \<Rightarrow> path \<Rightarrow> io_fault"

definition no_faults :: faults where
  \<comment> \<open>every write goes through\<close>
  "no_faults w p = No_fault"

definition write_io :: "faults \<Rightarrow> path \<Rightarrow> string \<Rightarrow> world \<Rightarrow> (error \<times> world) + world" where
  \<comment> \<open>\<^verbatim>\<open>with open(p, 'w') as f: f.write(content)\<close> in the state \<open>w\<close>\<close>
  "write_io io p content w = write_file_io (io w p) p content w"

fun for_io :: "('a \<Rightarrow> 's \<Rightarrow> (error \<times> world) + 's) \<Rightarrow> 'a list \<Rightarrow> 's \<Rightarrow> (error \<times> world) + 's" where
  \<comment> \<open>\<^verbatim>\<open>for x in xs: body\<close>; an exception raised by the body ends the loop.\<close>
  "for_io body [] s = Inr s"
| "for_io body (x # xs) s =
     (case body x s of Inl ew \<Rightarrow> Inl ew | Inr s' \<Rightarrow> for_io body xs s')"

definition fix_const_file_io :: "faults \<Rightarrow> path \<Rightarrow> path \<Rightarrow> world \<Rightarrow> (error \<times> world) + world" where
  "fix_const_file_io io script_dir file_path w =
     (let full_path = os_path_join (project_root script_dir) file_path
      in case files w full_path of
           None \<Rightarrow> Inr w
         | Some original_content \<Rightarrow>
            (let content = fix_const_text original_content
             in if content \<noteq> original_content then
                  (case write_io io full_path content w of
                     Inl ew \<Rightarrow> Inl ew
                   | Inr w' \<Rightarrow> Inr (print (Fixed_const_reassignments file_path) w'))
                else Inr w))"

definition fix_flow_nodes_io :: "faults \<Rightarrow> path \<Rightarrow> world \<Rightarrow> (error \<times> world) + world" where
  "fix_flow_nodes_io io script_dir w =
     (let flow_nodes_path = os_path_join (project_root script_dir) ''src/lib/api/flow-nodes.ts''
      in case files w flow_nodes_path of
           None \<Rightarrow> Inr w
         | Some content \<Rightarrow>
            (let fixed_content = fixed_content_of content
             in if fixed_content \<noteq> content then
                  (case write_io io flow_nodes_path fixed_content w of
                     Inl ew \<Rightarrow> Inl ew
                   | Inr w' \<Rightarrow> Inr (print Fixed_syntax_error w'))
                else Inr w))"

definition build_main_io :: "faults \<Rightarrow> path \<Rightarrow> world \<Rightarrow> (error \<times> world) + world" where
  "build_main_io io script_dir w =
     (case for_io (fix_const_file_io io script_dir) files_to_fix_const
             (print Applying_final_build_fixes w) of
        Inl ew \<Rightarrow> Inl ew
      | Inr w2 \<Rightarrow>
         (case fix_flow_nodes_io io script_dir w2 of
            Inl ew \<Rightarrow> Inl ew
          | Inr w3 \<Rightarrow> Inr (print Run_npm_build (print Final_build_fixes_completed w3))))"

definition fix_file_io ::
  "faults \<Rightarrow> path \<Rightarrow> (regex \<times> piece list) list \<Rightarrow> world \<Rightarrow> (error \<times> world) + (world \<times> bool)" where
  "fix_file_io io file_path patterns w =
     (case files w file_path of
        None \<Rightarrow> Inr (w, False)
      | Some original_content \<Rightarrow>
         (let content = apply_patterns patterns original_content
          in if content \<noteq> original_content then
               (case write_io io file_path content w of
                  Inl ew \<Rightarrow> Inl ew
                | Inr w' \<Rightarrow> Inr (print (Fixed file_path) w', True))
             else Inr (w, False)))"

definition count_fix_io ::
  "faults \<Rightarrow> path \<times> (regex \<times> piece list) list \<Rightarrow> world \<times> int \<Rightarrow> (error \<times> world) + (world \<times> int)" where
  \<comment> \<open>\<^verbatim>\<open>if fix_file(fix['file'], fix['patterns']): fixed_count += 1\<close>\<close>
  "count_fix_io io fix st =
     (case fix_file_io io (fst fix) (snd fix) (fst st) of
        Inl ew \<Rightarrow> Inl ew
      | Inr r \<Rightarrow> Inr (fst r, if snd r then snd st + 1 else snd st))"

definition apply_fixes_io ::
  "faults \<Rightarrow> (path \<times> (regex \<times> piece list) list) list \<Rightarrow> world \<times> int \<Rightarrow> (error \<times> world) + (world \<times> int)" where
  "apply_fixes_io io fs st = for_io (count_fix_io io) fs st"

definition fix_agent_types_io :: "faults \<Rightarrow> path \<Rightarrow> world \<times> int \<Rightarrow> (error \<times> world) + (world \<times> int)" where
  "fix_agent_types_io io script_dir st =
     (let w = fst st; fixed_count = snd st;
          agent_types_path = os_path_join (project_root script_dir) ''src/components/agent-builder/types.ts''
      in case files w agent_types_path of
           None \<Rightarrow> Inr (w, fixed_count)
         | Some content \<Rightarrow>
            (let content1 = re_sub empty_extending_interface
                              [Txt ''type '', Ref 1, Txt '' = '', Ref 2] content;
                 content2 = re_sub empty_interface
                              [Txt ''interface '', Ref 1,
                               Txt ('' {'' @ [CHR 0x0A] @ ''  [key: string]: unknown;'' @ [CHR 0x0A] @ ''}'')]
                              content1
             in case write_io io agent_types_path content2 w of
                  Inl ew \<Rightarrow> Inl ew
                | Inr w' \<Rightarrow> Inr (print (Fixed agent_types_path) w', fixed_count + 1)))"

definition fix_observatory_io :: "faults \<Rightarrow> path \<Rightarrow> world \<times> int \<Rightarrow> (error \<times> world) + (world \<times> int)" where
  "fix_observatory_io io script_dir st =
     (let w = fst st; fixed_count = snd st;
          observatory_path = os_path_join (project_root script_dir) ''lambda/observatory-api/handler.ts''
      in case files w observatory_path of
           None \<Rightarrow> Inr (w, fixed_count)
         | Some content \<Rightarrow>
            (case write_io io observatory_path (wrap_case_declarations content) w of
               Inl ew \<Rightarrow> Inl ew
             | Inr w' \<Rightarrow> Inr (print (Fixed observatory_path) w', fixed_count + 1)))"

definition typescript_main_io :: "faults \<Rightarrow> path \<Rightarrow> world \<Rightarrow> (error \<times> world) + world" where
  "typescript_main_io io script_dir w =
     (case apply_fixes_io io (typescript_fixes script_dir)
             (print Applying_final_typescript_fixes w, 0) of
        Inl ew \<Rightarrow> Inl ew
      | Inr st1 \<Rightarrow>
         (case fix_agent_types_io io script_dir st1 of
            Inl ew \<Rightarrow> Inl ew
          | Inr st2 \<Rightarrow>
             (case fix_observatory_io io script_dir st2 of
                Inl ew \<Rightarrow> Inl ew
              | Inr st3 \<Rightarrow>
                 Inr (print Run_npm_lint
                        (print (Files_fixed (snd st3)) (print Typescript_fixes_completed (fst st3)))))))"

definition fix_tenant_io :: "faults \<Rightarrow> path \<Rightarrow> world \<Rightarrow> (error \<times> world) + world" where
  "fix_tenant_io io script_dir w =
     (if path_exists w (tenant_path script_dir) then
        (case files w (tenant_path script_dir) of
           None \<Rightarrow> Inr w
         | Some tenant_content \<Rightarrow>
            (case write_io io (tenant_path script_dir) (replace tenant_content (bs @ ''/'') ''/'') w of
               Inl ew \<Rightarrow> Inl ew
             | Inr w' \<Rightarrow> Inr (print Fixed_tenant_patterns w')))
      else Inr w)"

definition fix_regex_io :: "faults \<Rightarrow> path \<Rightarrow> world \<Rightarrow> (error \<times> world) + world" where
  "fix_regex_io io script_dir w =
     (let w1 = print Fixing_router_patterns w
      in case read_file w1 (router_path script_dir) of
           Inl e \<Rightarrow> Inl (e, w1)
         | Inr content \<Rightarrow>
            (let content1 = replace content (''[^'' @ bs @ ''/]+'') ''[^/]+'';
                 content2 = replace content1 (''[^'' @ bs @ ''/]'') ''[^/]''
             in case write_io io (router_path script_dir) content2 w1 of
                  Inl ew \<Rightarrow> Inl ew
                | Inr w' \<Rightarrow>
                   (case fix_tenant_io io script_dir (print Fixed_router_patterns w') of
                      Inl ew \<Rightarrow> Inl ew
                    | Inr w3 \<Rightarrow> Inr (print All_regex_fixes_completed w3))))"

definition add_declaration_io :: "faults \<Rightarrow> path \<Rightarrow> string \<Rightarrow> world \<Rightarrow> (error \<times> world) + world" where
  "add_declaration_io io file_path content w =
     (if contains ''expressionAttributeValues['' content \<and>
         \<not> contains ''const expressionAttributeValues:'' content then
        (let search_pos = str_find content ''// Default to scan with filters''
         in if search_pos \<noteq> - 1 then
              (let lines = split_nl (take (nat search_pos) content);
                   insert_pos = length (join_nl lines);
                   new_content = take insert_pos content @ [CHR 0x0A] @
                     ''    const expressionAttributeValues: Record<string, any> = {};'' @ [CHR 0x0A] @
                     drop insert_pos content
               in case write_io io file_path new_content w of
                    Inl ew \<Rightarrow> Inl ew
                  | Inr w' \<Rightarrow> Inr (print (Added_declaration file_path) w'))
            else Inr w)
      else Inr w)"

definition check_manually_io :: "faults \<Rightarrow> path \<Rightarrow> string \<Rightarrow> world \<Rightarrow> (error \<times> world) + world" where
  "check_manually_io io file_path content w =
     (case (if contains ''lab.ts'' file_path then add_declaration_io io file_path content w
            else Inr w) of
        Inl ew \<Rightarrow> Inl ew
      | Inr w1 \<Rightarrow>
         (if contains ''flow-nodes.ts'' file_path then add_declaration_io io file_path content w1
          else Inr w1))"

definition apply_fix_io :: "faults \<Rightarrow> path \<times> regex \<times> piece list \<Rightarrow> world \<Rightarrow> (error \<times> world) + world" where
  "apply_fix_io io fix w =
     (let file_path = fst fix; search = fst (snd fix); replacement = snd (snd fix)
      in case files w file_path of
           None \<Rightarrow> Inr (print (File_not_found file_path) w)
         | Some content \<Rightarrow>
            (let w1 = print (Fixing file_path) w;
                 new_content = re_sub search replacement content
             in if new_content \<noteq> content then
                  (case write_io io file_path new_content w1 of
                     Inl ew \<Rightarrow> Inl ew
                   | Inr w' \<Rightarrow> Inr (print (Applied_fix file_path) w'))
                else check_manually_io io file_path content (print (No_match_found file_path) w1)))"

definition fix_const_errors_io :: "faults \<Rightarrow> world \<Rightarrow> (error \<times> world) + world" where
  "fix_const_errors_io io w = for_io (apply_fix_io io) const_error_fixes w"

definition const_errors_main_io :: "faults \<Rightarrow> world \<Rightarrow> (error \<times> world) + world" where
  "const_errors_main_io io w =
     (case fix_const_errors_io io (print Fixing_const_errors w) of
        Inl ew \<Rightarrow> Inl ew
      | Inr w' \<Rightarrow> Inr (print Const_error_fixes_completed w'))"

definition write_failed :: "faults \<Rightarrow> error \<times> world \<Rightarrow> bool" where
  \<comment> \<open>\<open>ew\<close> is what some write leaves when the system answers it with an error.\<close>
  "write_failed io ew =
     (\<exists>w p content. io w p \<noteq> No_fault \<and> write_file_io (io w p) p content w = Inl ew)"

section \<open>Notions used in the proofs\<close>

text \<open>
  A line is its stripped text between two runs of whitespace. \<open>blank\<close> says that a text
  is whitespace only, \<open>solid\<close> that it is not empty and neither starts nor ends with
  whitespace. The other notions name the tests of \<open>wrap_cases\<close>: a line that opens a
  switch, one that closes it, the flag after a line, a declaration line, and whether the
  case branch inserts its two lines.
\<close>

definition blank :: "string \<Rightarrow> bool" where
  "blank a = list_all isspace a"

definition solid :: "string \<Rightarrow> bool" where
  "solid m = (m \<noteq> [] \<and> \<not> isspace (hd m) \<and> \<not> isspace (last m))"

definition opener :: "string \<Rightarrow> bool" where
  "opener line = (contains ''switch'' line \<and> contains ''{'' line)"

definition closer :: "string \<Rightarrow> bool" where
  "closer line = (contains ''}'' line \<and> \<not> contains ''case'' line)"

definition next_state :: "bool \<Rightarrow> string \<Rightarrow> bool" where
  "next_state s line = (if opener line then True else if s \<and> closer line then False else s)"

definition is_decl :: "string \<Rightarrow> bool" where
  "is_decl nxt = startswith_any (strip nxt) [''const '', ''let '', ''var '']"

definition fires :: "bool \<Rightarrow> string \<Rightarrow> string list \<Rightarrow> bool" where
  "fires s line rest =
     (\<not> opener line \<and> \<not> closer line \<and> s \<and> startswith (strip line) ''case'' \<and>
      contains '':'' line \<and> (case rest of [] \<Rightarrow> False | nxt # _ \<Rightarrow> is_decl nxt))"

definition inserted :: "bool \<Rightarrow> string \<Rightarrow> string list \<Rightarrow> string list" where
  "inserted s line rest =
     (if fires s line rest then
        [replace (hd rest) (strip (hd rest)) ''        {'', ''        '' @ strip (hd rest)]
      else [])"





section \<open>Facts about the string functions\<close>

lemma contains_code [code]: "contains p s = sublist p s"
  by (simp add: contains_def)

lemma find_if_none: "\<forall>k. 0 \<le> k \<and> k \<le> j \<longrightarrow> \<not> contains ''if ('' (lines ! nat k) \<Longrightarrow> find_if lines j < 0"
proof (induction lines j rule: find_if.induct)
  case (1 lines j)
  show ?case
  proof (cases "j \<ge> 0")
    case True
    with "1.prems" have no: "\<not> contains ''if ('' (lines ! nat j)" by simp
    have "find_if lines (j - 1) < 0"
      using "1.IH" True no "1.prems" by simp
    with True no show ?thesis by (subst find_if.simps) simp
  next
    case False
    then show ?thesis by (subst find_if.simps) simp
  qed
qed

lemma fix_loop_append:
  "acc = a @ b \<Longrightarrow> fix_loop lines i acc = a @ fix_loop lines i b"
proof (induction lines i acc arbitrary: a b rule: fix_loop.induct)
  case (1 lines i fixed_lines)
  show ?case
  proof (cases "i < length lines")
    case False
    then show ?thesis using "1.prems" by (simp add: fix_loop.simps)
  next
    case True
    show ?thesis
    proof (cases "else_context lines i \<and> find_if lines (int i - 1) \<ge> 0")
      case hit: True
      let ?sec = "fixed_section (strip (lines ! nat (find_if lines (int i - 1))))"
      have "fix_loop lines i fixed_lines = fix_loop lines (i + 2) (fixed_lines @ ?sec)"
        using True hit by (subst fix_loop.simps) simp
      also have "\<dots> = a @ fix_loop lines (i + 2) (b @ ?sec)"
        using "1.IH"(1) [of a "b @ ?sec"] True hit "1.prems" by simp
      also have "fix_loop lines (i + 2) (b @ ?sec) = fix_loop lines i b"
        using True hit by (subst (2) fix_loop.simps) simp
      finally show ?thesis .
    next
      case miss: False
      have "fix_loop lines i fixed_lines = fix_loop lines (i + 1) (fixed_lines @ [lines ! i])"
        using True miss by (subst fix_loop.simps) auto
      also have "\<dots> = a @ fix_loop lines (i + 1) (b @ [lines ! i])"
        using "1.IH"(2) [of a "b @ [lines ! i]"] True miss "1.prems" by simp
      also have "fix_loop lines (i + 1) (b @ [lines ! i]) = fix_loop lines i b"
        using True miss by (subst (2) fix_loop.simps) auto
      finally show ?thesis .
    qed
  qed
qed

lemma fix_loop_acc: "fix_loop lines i acc = acc @ fix_loop lines i []"
  using fix_loop_append [of acc acc "[]"] by simp

lemma find_if_neg_iff:
  "find_if lines j < 0 \<longleftrightarrow> (\<forall>k. 0 \<le> k \<and> k \<le> j \<longrightarrow> \<not> contains ''if ('' (lines ! nat k))"
proof (induction lines j rule: find_if.induct)
  case (1 lines j)
  show ?case
  proof (cases "j \<ge> 0 \<and> \<not> contains ''if ('' (lines ! nat j)")
    case True
    have "find_if lines j = find_if lines (j - 1)"
      using True by (subst find_if.simps) simp
    moreover have "(\<forall>k. 0 \<le> k \<and> k \<le> j \<longrightarrow> \<not> contains ''if ('' (lines ! nat k)) \<longleftrightarrow>
        (\<forall>k. 0 \<le> k \<and> k \<le> j - 1 \<longrightarrow> \<not> contains ''if ('' (lines ! nat k))"
    proof -
      have "\<And>k. k \<le> j \<longleftrightarrow> k \<le> j - 1 \<or> k = j" by arith
      with True show ?thesis by blast
    qed
    ultimately show ?thesis using "1.IH" True by simp
  next
    case False
    have eq: "find_if lines j = j"
      using False by (subst find_if.simps) auto
    show ?thesis
    proof (cases "j \<ge> 0")
      case True
      with False eq show ?thesis by auto
    next
      case False
      with eq show ?thesis by auto
    qed
  qed
qed

lemma fix_loop_no_if_step:
  assumes "i < length lines" and "find_if lines (int i - 1) < 0"
  shows "fix_loop lines i [] = lines ! i # fix_loop lines (Suc i) []"
proof -
  have "fix_loop lines i [] = fix_loop lines (i + 1) ([] @ [lines ! i])"
    using assms by (subst fix_loop.simps) simp
  also have "\<dots> = [lines ! i] @ fix_loop lines (i + 1) []"
    by (rule fix_loop_append) simp
  finally show ?thesis by simp
qed

lemma fix_loop_no_if_prefix:
  assumes "find_if lines (int i - 1) < 0"
  shows "n \<le> Suc i \<Longrightarrow> n \<le> length lines \<Longrightarrow>
    fix_loop lines 0 [] = take n lines @ fix_loop lines n []"
proof (induction n)
  case 0
  show ?case by simp
next
  case (Suc n)
  have none: "\<forall>k. 0 \<le> k \<and> k \<le> int i - 1 \<longrightarrow> \<not> contains ''if ('' (lines ! nat k)"
    using assms by (simp add: find_if_neg_iff)
  have "find_if lines (int n - 1) < 0"
    unfolding find_if_neg_iff using none Suc.prems by auto
  then have "fix_loop lines n [] = lines ! n # fix_loop lines (Suc n) []"
    using Suc.prems by (intro fix_loop_no_if_step) simp_all
  moreover have "take (Suc n) lines = take n lines @ [lines ! n]"
    using Suc.prems by (simp add: take_Suc_conv_app_nth)
  ultimately show ?case using Suc by simp
qed

section \<open>Facts about whitespace around a line\<close>

lemma rev_split_while:
  "xs = rev (dropWhile P (rev xs)) @ rev (takeWhile P (rev xs))"
  by (metis rev_append rev_rev_ident takeWhile_dropWhile_id)

lemma strip_decomp:
  "\<exists>a b. s = a @ strip s @ b \<and> blank a \<and> blank b"
proof -
  let ?d = "dropWhile isspace s"
  have 1: "s = takeWhile isspace s @ ?d" by simp
  have 2: "?d = strip s @ rev (takeWhile isspace (rev ?d))"
    unfolding strip_def by (rule rev_split_while)
  have b1: "blank (takeWhile isspace s)"
    by (simp add: blank_def list_all_iff) (meson set_takeWhileD)
  have b2: "blank (rev (takeWhile isspace (rev ?d)))"
    by (simp add: blank_def list_all_iff) (meson set_takeWhileD)
  from 1 2 have "s = takeWhile isspace s @ strip s @ rev (takeWhile isspace (rev ?d))"
    by metis
  with b1 b2 show ?thesis by blast
qed

lemma strip_solid: "strip s \<noteq> [] \<Longrightarrow> solid (strip s)"
proof -
  assume ne: "strip s \<noteq> []"
  let ?d = "dropWhile isspace s"
  let ?e = "dropWhile isspace (rev ?d)"
  have e: "?e \<noteq> []" using ne by (simp add: strip_def)
  then have "\<not> isspace (hd ?e)" by (rule hd_dropWhile)
  then have last: "\<not> isspace (last (strip s))"
    using e by (simp add: strip_def last_rev)
  have d: "?d = strip s @ rev (takeWhile isspace (rev ?d))"
    unfolding strip_def by (rule rev_split_while)
  have "?d \<noteq> []"
  proof
    assume "?d = []"
    with d have "strip s @ rev (takeWhile isspace (rev ?d)) = []" by metis
    with ne show False by simp
  qed
  then have "\<not> isspace (hd ?d)" by (rule hd_dropWhile)
  moreover have "hd ?d = hd (strip s)" using d ne by (metis hd_append2)
  ultimately show ?thesis using ne last by (simp add: solid_def)
qed

lemma dropWhile_blank: "blank a \<Longrightarrow> dropWhile isspace (a @ s) = dropWhile isspace s"
  by (induction a) (auto simp: blank_def)

lemma strip_sandwich:
  assumes "blank a" "blank b" "solid m"
  shows "strip (a @ m @ b) = m"
proof -
  have 1: "dropWhile isspace (a @ m @ b) = m @ b"
    using assms(1,3) by (cases m) (auto simp: dropWhile_blank solid_def)
  have "blank (rev b)" using assms(2) by (simp add: blank_def)
  then have "dropWhile isspace (rev b @ rev m) = dropWhile isspace (rev m)"
    by (rule dropWhile_blank)
  also have "\<dots> = rev m"
    using assms(3) by (cases "rev m") (auto simp: solid_def last_rev hd_rev)
  finally show ?thesis using 1 by (simp add: strip_def)
qed

lemma sublist_blank_left:
  assumes "blank a" "p \<noteq> []" "\<not> isspace (hd p)"
  shows "sublist p (a @ s) \<longleftrightarrow> sublist p s"
  using assms(1)
proof (induction a)
  case Nil
  show ?case by simp
next
  case (Cons c a)
  then have c: "isspace c" and a: "blank a" by (auto simp: blank_def)
  have "\<not> prefix p (c # a @ s)"
    using assms(2,3) c by (cases p) auto
  then show ?case using Cons.IH a by (simp add: sublist_Cons_right)
qed

lemma sublist_blank_right:
  assumes "blank b" "p \<noteq> []" "\<not> isspace (last p)"
  shows "sublist p (s @ b) \<longleftrightarrow> sublist p s"
proof -
  have "sublist p (s @ b) \<longleftrightarrow> sublist (rev p) (rev b @ rev s)"
    by (metis rev_append sublist_rev)
  also have "\<dots> \<longleftrightarrow> sublist (rev p) (rev s)"
    using assms by (intro sublist_blank_left) (auto simp: blank_def hd_rev)
  finally show ?thesis by (simp add: sublist_rev)
qed

lemma contains_sandwich:
  assumes "blank a" "blank b" "p \<noteq> []" "\<not> isspace (hd p)" "\<not> isspace (last p)"
  shows "contains p (a @ m @ b) = contains p m"
  using assms by (simp add: contains_def sublist_blank_left) (metis append_assoc sublist_blank_right sublist_blank_left)

lemma replace_blank: "blank b \<Longrightarrow> solid m \<Longrightarrow> replace b m new = b"
proof (induction b)
  case Nil
  then show ?case by (auto simp: solid_def)
next
  case (Cons c b)
  then have "\<not> prefix m (c # b)" by (cases m) (auto simp: blank_def solid_def)
  with Cons show ?case by (auto simp: blank_def solid_def)
qed

lemma replace_sandwich:
  assumes "blank b" "solid m"
  shows "blank a \<Longrightarrow> replace (a @ m @ b) m new = a @ new @ b"
proof (induction a)
  case Nil
  obtain c cs where m: "m = c # cs" using assms(2) by (cases m) (auto simp: solid_def)
  have "replace (m @ b) m new = new @ replace (drop (length m) (m @ b)) m new"
    unfolding m by simp
  then show ?case using replace_blank [OF assms] by simp
next
  case (Cons c a)
  then have "\<not> prefix m (c # a @ m @ b)"
    using assms(2) by (cases m) (auto simp: blank_def solid_def)
  with Cons assms show ?case by (auto simp: blank_def solid_def)
qed


section \<open>Facts about the case-wrapping pass\<close>

declare wrap_cases.simps(2) [simp del]

lemma wrap_cases_Cons:
  "wrap_cases s (line # rest) = line # inserted s line rest @ wrap_cases (next_state s line) rest"
  by (subst wrap_cases.simps(2))
     (auto simp: inserted_def fires_def next_state_def opener_def closer_def is_decl_def Let_def
           split: list.split)

lemma fires_next_state: "fires s line rest \<Longrightarrow> next_state s line = s"
  by (simp add: fires_def next_state_def)


lemma inserted_nil: "\<not> fires s line rest \<Longrightarrow> inserted s line rest = []"
  by (simp add: inserted_def)


lemma solid_simps:
  "solid ''switch''" "solid ''{''" "solid ''}''" "solid ''case''" "solid '':''"
  by (simp_all add: solid_def isspace_def)

lemma is_decl_shape:
  assumes "is_decl nxt"
  obtains a b where "nxt = a @ strip nxt @ b" "blank a" "blank b" "solid (strip nxt)"
    "\<not> prefix ''case'' (strip nxt)"
proof -
  from assms have ne: "strip nxt \<noteq> []" and nc: "\<not> prefix ''case'' (strip nxt)"
    by (auto simp: is_decl_def startswith_any_def prefix_def)
  from strip_decomp obtain a b where "nxt = a @ strip nxt @ b" "blank a" "blank b" by blast
  with strip_solid [OF ne] nc that show thesis by blast
qed

lemma blank_spaces: "blank ''        ''"
  by (simp add: blank_def isspace_def)

lemma brace_line:
  assumes "is_decl nxt" and "blank ind"
  shows "\<not> opener (replace nxt (strip nxt) (ind @ ''{''))"
    and "\<not> closer (replace nxt (strip nxt) (ind @ ''{''))"
    and "strip (replace nxt (strip nxt) (ind @ ''{'')) = ''{''"
proof -
  from assms(1) obtain a b where sh: "nxt = a @ strip nxt @ b" "blank a" "blank b" "solid (strip nxt)"
    by (rule is_decl_shape)
  have "replace (a @ strip nxt @ b) (strip nxt) (ind @ ''{'') = a @ (ind @ ''{'') @ b"
    using sh by (intro replace_sandwich)
  then have eq: "replace nxt (strip nxt) (ind @ ''{'') = (a @ ind) @ ''{'' @ b"
    using sh(1) by simp
  have bl: "blank (a @ ind)" using sh(2) assms(2) by (simp add: blank_def)
  have c: "\<And>p. solid p \<Longrightarrow> contains p (replace nxt (strip nxt) (ind @ ''{'')) = contains p ''{''"
    unfolding eq using bl sh(3) by (intro contains_sandwich) (auto simp: solid_def)
  show "\<not> opener (replace nxt (strip nxt) (ind @ ''{''))"
    by (simp add: opener_def c solid_simps) (simp add: contains_def sublist_Cons_right)
  show "\<not> closer (replace nxt (strip nxt) (ind @ ''{''))"
    by (simp add: closer_def c solid_simps) (simp add: contains_def sublist_Cons_right)
  show "strip (replace nxt (strip nxt) (ind @ ''{'')) = ''{''"
    unfolding eq using bl sh(3) by (intro strip_sandwich) (auto simp: solid_simps)
qed




lemma not_fires_decl: "is_decl nxt \<Longrightarrow> \<not> fires s nxt rest"
  by (erule is_decl_shape) (simp add: fires_def startswith_def)




lemma wrap_cases_quiet:
  "\<not> fires s line rest \<Longrightarrow> wrap_cases s (line # rest) = line # wrap_cases (next_state s line) rest"
  by (simp add: wrap_cases_Cons inserted_nil)

lemma wrap_cases_fired:
  assumes "fires s line (nxt # rest)"
  shows "wrap_cases s (line # nxt # rest) =
    line # replace nxt (strip nxt) ''        {'' # (''        '' @ strip nxt) # nxt #
      wrap_cases (next_state s nxt) rest"
proof -
  from assms have d: "is_decl nxt" by (simp add: fires_def)
  have "wrap_cases s (nxt # rest) = nxt # wrap_cases (next_state s nxt) rest"
    using not_fires_decl [OF d] by (rule wrap_cases_quiet)
  then show ?thesis
    using assms by (simp add: wrap_cases_Cons [of s line] inserted_def fires_next_state)
qed



lemma startswith_strip_contains:
  assumes "startswith (strip line) p"
  shows "contains p line"
proof -
  from strip_decomp obtain a b where l: "line = a @ strip line @ b" by blast
  from assms obtain r where "strip line = p @ r" by (auto simp: startswith_def prefix_def)
  with l have "line = a @ p @ (r @ b)" by simp
  then show ?thesis unfolding contains_def sublist_def by blast
qed

section \<open>Facts about \<^verbatim>\<open>re.sub\<close>\<close>


lemma sub_loop_none: "re_search r adv p s = None \<Longrightarrow> sub_loop r t adv p s = s"
  by (subst sub_loop.simps) simp

lemma sub_loop_some:
  "re_search r adv p s = Some (u, m) \<Longrightarrow>
   sub_loop r t adv p s =
     u @ expand t (caps m) @ sub_loop r t (length u + length (after m) = length s) (prior m) (after m)"
  by (subst sub_loop.simps) simp

lemma sub_loop_skip:
  assumes "match_at r adv p (c # cs) = None"
  shows "sub_loop r t adv p (c # cs) = c # sub_loop r t False (Some c) cs"
proof (cases "re_search r False (Some c) cs")
  case None
  then have "re_search r adv p (c # cs) = None" using assms by simp
  then show ?thesis using None by (simp add: sub_loop_none)
next
  case (Some um)
  obtain u m where um: "um = (u, m)" by (cases um)
  have "re_search r adv p (c # cs) = Some (c # u, m)" using assms Some um by simp
  then show ?thesis using Some um by (simp add: sub_loop_some)
qed






lemma ms_lit:
  "ms (lit old) m =
     (if prefix old (after m) then
        [m\<lparr>prior := (if old = [] then prior m else Some (last old)),
           after := drop (length old) (after m)\<rparr>]
      else [])"
proof (induction old arbitrary: m)
  case Nil
  show ?case by (simp add: lit_def ms.simps(1))
next
  case (Cons c cs)
  have l: "lit (c # cs) = Cat (Chr c) (lit cs)" by (simp add: lit_def)
  show ?case
  proof (cases "after m")
    case Nil
    then show ?thesis by (simp add: l ms.simps(8) ms.simps(2) eat_def)
  next
    case (Cons x xs)
    then show ?thesis
      by (simp add: l ms.simps(8) ms.simps(2) eat_def Cons.IH)
  qed
qed

lemma match_at_lit:
  assumes "old \<noteq> []"
  shows "match_at (lit old) adv p s =
     (if prefix old s then Some \<lparr>prior = Some (last old), after = drop (length old) s, caps = []\<rparr>
      else None)"
  using assms by (auto simp: match_at_def ms_lit prefix_def)

lemma sub_loop_lit:
  assumes "old \<noteq> []"
  shows "sub_loop (lit old) [Txt new] adv p s = replace s old new"
proof (induction s arbitrary: adv p rule: length_induct)
  case (1 s)
  show ?case
  proof (cases s)
    case Nil
    have "re_search (lit old) adv p [] = None"
      using assms by (simp add: match_at_lit)
    then show ?thesis using Nil assms by (simp add: sub_loop_none)
  next
    case (Cons c cs)
    show ?thesis
    proof (cases "prefix old (c # cs)")
      case True
      let ?m = "\<lparr>prior = Some (last old), after = drop (length old) (c # cs), caps = []\<rparr>"
      have "re_search (lit old) adv p (c # cs) = Some ([], ?m)"
        using True assms by (simp add: match_at_lit)
      then have "sub_loop (lit old) [Txt new] adv p (c # cs) =
          new @ sub_loop (lit old) [Txt new] (length (drop (length old) (c # cs)) = length (c # cs))
                  (Some (last old)) (drop (length old) (c # cs))"
        by (simp add: sub_loop_some)
      moreover have "length (drop (length old) (c # cs)) < length s"
        using assms Cons by (cases old) auto
      ultimately show ?thesis using "1.IH" True assms Cons by simp
    next
      case False
      then have "match_at (lit old) adv p (c # cs) = None"
        using assms by (simp add: match_at_lit)
      then have "sub_loop (lit old) [Txt new] adv p (c # cs) =
          c # sub_loop (lit old) [Txt new] False (Some c) cs"
        by (rule sub_loop_skip)
      then show ?thesis using "1.IH" False assms Cons by simp
    qed
  qed
qed

lemma re_sub_lit: "old \<noteq> [] \<Longrightarrow> re_sub (lit old) [Txt new] s = replace s old new"
  by (simp add: re_sub_def sub_loop_lit)

section \<open>Facts about the \<^verbatim>\<open>} else {\<close> repair\<close>




















section \<open>Facts about lines and texts\<close>















section \<open>Facts about files\<close>

lemma write_file_files: "files (write_file p c w) = (files w)(p \<mapsto> c)"
  by (simp add: write_file_def f_write_def open_w_def)

lemma write_file_writes: "writes (write_file p c w) = writes w @ [p]"
  by (simp add: write_file_def f_write_def open_w_def)

lemma write_file_console: "console (write_file p c w) = console w"
  by (simp add: write_file_def f_write_def open_w_def)

lemma print_simps: "files (print m w) = files w" "writes (print m w) = writes w"
  "console (print m w) = console w @ [m]"
  by (simp_all add: print_def)

lemma router_path_scripts: "router_path ''scripts'' = ''scripts/../lambda/api/router.ts''"
  by code_simp

lemma tenant_path_scripts: "tenant_path ''scripts'' = ''scripts/../lambda/api/middleware/tenant.ts''"
  by code_simp

lemma observatory_path_scripts:
  "os_path_join (project_root ''scripts'') ''lambda/observatory-api/handler.ts'' =
     ''scripts/../lambda/observatory-api/handler.ts''"
  by code_simp

lemma wrap_plain: "wrap_case_declarations ''const a = 1;'' = ''const a = 1;''"
  by code_simp

lemma replace_plain1: "replace ''abc'' (''[^'' @ bs @ ''/]+'') ''[^/]+'' = ''abc''"
  by code_simp
lemma replace_plain2: "replace ''abc'' (''[^'' @ bs @ ''/]'') ''[^/]'' = ''abc''"
  by code_simp

lemma add_declaration_then_skipped:
  assumes "add_declaration file_path content w \<noteq> w"
  shows "\<exists>new_content. files (add_declaration file_path content w) file_path = Some new_content \<and>
           contains ''const expressionAttributeValues:'' new_content"
proof -
  let ?pos = "str_find content ''// Default to scan with filters''"
  let ?ins = "length (join_nl (split_nl (take (nat ?pos) content)))"
  let ?decl = "''    const expressionAttributeValues: Record<string, any> = {};''"
  let ?new = "take ?ins content @ [CHR 0x0A] @ ?decl @ [CHR 0x0A] @ drop ?ins content"
  from assms have eq: "add_declaration file_path content w =
      print (Added_declaration file_path) (write_file file_path ?new w)"
    by (auto simp: add_declaration_def Let_def split: if_splits)
  have "?new = (take ?ins content @ [CHR 0x0A] @ ''    '') @ ''const expressionAttributeValues:'' @
      ('' Record<string, any> = {};'' @ [CHR 0x0A] @ drop ?ins content)"
    by simp
  then have "contains ''const expressionAttributeValues:'' ?new"
    unfolding contains_def sublist_def by blast
  then show ?thesis unfolding eq by (simp add: print_simps write_file_files)
qed


lemma fix_file_missing: "files w file_path = None \<Longrightarrow> fix_file file_path patterns w = (w, False)"
  by (simp add: fix_file_def)

lemma fix_file_keeps_missing:
  "files w p = None \<Longrightarrow> files (fst (fix_file file_path patterns w)) p = None"
  by (cases "files w file_path")
     (auto simp: fix_file_def Let_def print_simps write_file_files)

lemma apply_fixes_Nil: "apply_fixes [] st = st"
  by (simp add: apply_fixes_def)

lemma apply_fixes_Cons:
  "apply_fixes (entry # fs) st =
     apply_fixes fs (fst (fix_file (fst entry) (snd entry) (fst st)),
                     if snd (fix_file (fst entry) (snd entry) (fst st)) then snd st + 1 else snd st)"
  by (simp add: apply_fixes_def Let_def)

lemma apply_fixes_append:
  "apply_fixes (xs @ ys) st = apply_fixes ys (apply_fixes xs st)"
  by (simp add: apply_fixes_def)

lemma apply_fixes_keeps_missing:
  "files (fst st) p = None \<Longrightarrow> files (fst (apply_fixes fs st)) p = None"
proof (induction fs arbitrary: st)
  case Nil
  then show ?case by (simp add: apply_fixes_Nil)
next
  case (Cons entry fs)
  show ?case
    unfolding apply_fixes_Cons
    by (rule Cons.IH) (simp add: fix_file_keeps_missing Cons.prems)
qed

subsection \<open>Input/output errors\<close>


lemma write_io_Inr: "write_io io p content w = Inr w' \<Longrightarrow> w' = write_file p content w"
  by (cases "io w p") (simp_all add: write_io_def write_file_io_def)

lemma write_io_no_faults: "write_io no_faults p content w = Inr (write_file p content w)"
  by (simp add: write_io_def write_file_io_def no_faults_def)

lemma for_io_Inr:
  assumes "\<And>x s s'. body_io x s = Inr s' \<Longrightarrow> s' = body x s"
  shows "for_io body_io xs s = Inr s' \<Longrightarrow> s' = foldl (\<lambda>s x. body x s) s xs"
proof (induction xs arbitrary: s)
  case Nil
  then show ?case by simp
next
  case (Cons x xs)
  then show ?case using assms by (auto split: sum.splits)
qed

lemma for_io_total:
  assumes "\<And>x s. body_io x s = Inr (body x s)"
  shows "for_io body_io xs s = Inr (foldl (\<lambda>s x. body x s) s xs)"
  by (induction xs arbitrary: s) (simp_all add: assms)


lemma write_io_Inl:
  "write_io io p content w = Inl ew \<Longrightarrow>
     io w p \<noteq> No_fault \<and> write_file_io (io w p) p content w = Inl ew"
  by (cases "io w p") (simp_all add: write_io_def write_file_io_def)

lemma for_io_Inl:
  "for_io body xs s = Inl ew \<Longrightarrow> \<exists>x s1. body x s1 = Inl ew"
  by (induction xs arbitrary: s) (auto split: sum.splits)

text \<open>A run that returns has done what the run without errors does.\<close>

lemma fix_const_file_io_Inr:
  "fix_const_file_io io script_dir file_path w = Inr w' \<Longrightarrow> w' = fix_const_file script_dir file_path w"
  by (auto simp: fix_const_file_io_def fix_const_file_def Let_def
      split: option.splits if_splits sum.splits dest: write_io_Inr)

lemma fix_flow_nodes_io_Inr:
  "fix_flow_nodes_io io script_dir w = Inr w' \<Longrightarrow> w' = fix_flow_nodes script_dir w"
  by (auto simp: fix_flow_nodes_io_def fix_flow_nodes_def Let_def
      split: option.splits if_splits sum.splits dest: write_io_Inr)

lemma build_main_io_Inr:
  assumes "build_main_io io script_dir w = Inr w'"
  shows "w' = build_main script_dir w"
proof -
  from assms obtain w2 w3 where
    1: "for_io (fix_const_file_io io script_dir) files_to_fix_const
          (print Applying_final_build_fixes w) = Inr w2" and
    2: "fix_flow_nodes_io io script_dir w2 = Inr w3" and
    3: "w' = print Run_npm_build (print Final_build_fixes_completed w3)"
    by (auto simp: build_main_io_def split: sum.splits)
  from for_io_Inr [of "fix_const_file_io io script_dir" "fix_const_file script_dir", OF _ 1]
  have "w2 = foldl (\<lambda>w file_path. fix_const_file script_dir file_path w)
                (print Applying_final_build_fixes w) files_to_fix_const"
    by (simp add: fix_const_file_io_Inr)
  moreover from 2 have "w3 = fix_flow_nodes script_dir w2" by (rule fix_flow_nodes_io_Inr)
  ultimately show ?thesis using 3 by (simp add: build_main_def Let_def)
qed

lemma fix_file_io_Inr:
  "fix_file_io io file_path patterns w = Inr r \<Longrightarrow> r = fix_file file_path patterns w"
  by (auto simp: fix_file_io_def fix_file_def Let_def
      split: option.splits if_splits sum.splits dest: write_io_Inr)

lemma count_fix_io_Inr:
  "count_fix_io io fix st = Inr st' \<Longrightarrow>
     st' = (let r = fix_file (fst fix) (snd fix) (fst st)
            in (fst r, if snd r then snd st + 1 else snd st))"
  by (auto simp: count_fix_io_def Let_def split: sum.splits dest: fix_file_io_Inr)

lemma apply_fixes_io_Inr:
  assumes "apply_fixes_io io fs st = Inr st'"
  shows "st' = apply_fixes fs st"
  using for_io_Inr [of "count_fix_io io"
      "\<lambda>fix st. (let r = fix_file (fst fix) (snd fix) (fst st)
                  in (fst r, if snd r then snd st + 1 else snd st))" fs st st']
    assms
  by (simp add: apply_fixes_io_def apply_fixes_def count_fix_io_Inr)

lemma fix_agent_types_io_Inr:
  "fix_agent_types_io io script_dir st = Inr st' \<Longrightarrow> st' = fix_agent_types script_dir st"
  by (auto simp: fix_agent_types_io_def fix_agent_types_def Let_def
      split: option.splits if_splits sum.splits dest: write_io_Inr)

lemma fix_observatory_io_Inr:
  "fix_observatory_io io script_dir st = Inr st' \<Longrightarrow> st' = fix_observatory script_dir st"
  by (auto simp: fix_observatory_io_def fix_observatory_def Let_def
      split: option.splits if_splits sum.splits dest: write_io_Inr)

lemma typescript_main_io_Inr:
  assumes "typescript_main_io io script_dir w = Inr w'"
  shows "w' = typescript_main script_dir w"
proof -
  from assms obtain st1 st2 st3 where
    1: "apply_fixes_io io (typescript_fixes script_dir)
          (print Applying_final_typescript_fixes w, 0) = Inr st1" and
    2: "fix_agent_types_io io script_dir st1 = Inr st2" and
    3: "fix_observatory_io io script_dir st2 = Inr st3" and
    4: "w' = print Run_npm_lint
               (print (Files_fixed (snd st3)) (print Typescript_fixes_completed (fst st3)))"
    by (auto simp: typescript_main_io_def split: sum.splits)
  from 1 2 3 4 show ?thesis
    by (simp add: typescript_main_def Let_def apply_fixes_io_Inr [OF 1]
        fix_agent_types_io_Inr [OF 2] fix_observatory_io_Inr [OF 3])
qed

lemma fix_tenant_io_Inr:
  "fix_tenant_io io script_dir w = Inr w' \<Longrightarrow> w' = fix_tenant script_dir w"
  by (auto simp: fix_tenant_io_def fix_tenant_def Let_def
      split: option.splits if_splits sum.splits dest: write_io_Inr)

lemma fix_regex_io_Inr:
  "fix_regex_io io script_dir w = Inr w' \<Longrightarrow> fix_regex script_dir w = Inr w'"
  by (auto simp: fix_regex_io_def fix_regex_def Let_def
      split: option.splits if_splits sum.splits dest: write_io_Inr fix_tenant_io_Inr)

lemma add_declaration_io_Inr:
  "add_declaration_io io file_path content w = Inr w' \<Longrightarrow> w' = add_declaration file_path content w"
  by (auto simp: add_declaration_io_def add_declaration_def Let_def
      split: option.splits if_splits sum.splits dest: write_io_Inr)

lemma check_manually_io_Inr:
  "check_manually_io io file_path content w = Inr w' \<Longrightarrow> w' = check_manually file_path content w"
  by (auto simp: check_manually_io_def check_manually_def Let_def
      split: option.splits if_splits sum.splits dest: add_declaration_io_Inr)

lemma apply_fix_io_Inr:
  "apply_fix_io io fix w = Inr w' \<Longrightarrow> w' = apply_fix fix w"
  by (auto simp: apply_fix_io_def apply_fix_def Let_def
      split: option.splits if_splits sum.splits dest: write_io_Inr check_manually_io_Inr)

lemma fix_const_errors_io_Inr:
  assumes "fix_const_errors_io io w = Inr w'"
  shows "w' = fix_const_errors w"
  using for_io_Inr [of "apply_fix_io io" apply_fix const_error_fixes w w'] assms
  by (simp add: fix_const_errors_io_def fix_const_errors_def apply_fix_io_Inr)

lemma const_errors_main_io_Inr:
  "const_errors_main_io io w = Inr w' \<Longrightarrow> w' = const_errors_main w"
  by (auto simp: const_errors_main_io_def const_errors_main_def
      split: sum.splits dest: fix_const_errors_io_Inr)

text \<open>An exception comes from a write.\<close>

lemma write_io_failed: "write_io io p content w = Inl ew \<Longrightarrow> write_failed io ew"
  unfolding write_failed_def by (blast dest: write_io_Inl)

lemma for_io_failed:
  assumes "\<And>x s. body x s = Inl ew \<Longrightarrow> write_failed io ew"
  shows "for_io body xs s = Inl ew \<Longrightarrow> write_failed io ew"
  using for_io_Inl [of body xs s ew] assms by blast

lemma fix_const_file_io_failed:
  "fix_const_file_io io script_dir file_path w = Inl ew \<Longrightarrow> write_failed io ew"
  by (auto simp: fix_const_file_io_def Let_def
      split: option.splits if_splits sum.splits dest: write_io_failed)

lemma fix_flow_nodes_io_failed:
  "fix_flow_nodes_io io script_dir w = Inl ew \<Longrightarrow> write_failed io ew"
  by (auto simp: fix_flow_nodes_io_def Let_def
      split: option.splits if_splits sum.splits dest: write_io_failed)

lemma const_loop_io_failed:
  "for_io (fix_const_file_io io script_dir) ps w = Inl ew \<Longrightarrow> write_failed io ew"
  by (rule for_io_failed [of "fix_const_file_io io script_dir" ew io ps w])
     (auto dest: fix_const_file_io_failed)

lemma build_main_io_failed:
  "build_main_io io script_dir w = Inl ew \<Longrightarrow> write_failed io ew"
  by (auto simp: build_main_io_def split: sum.splits
      dest: fix_flow_nodes_io_failed const_loop_io_failed)

lemma fix_file_io_failed:
  "fix_file_io io file_path patterns w = Inl ew \<Longrightarrow> write_failed io ew"
  by (auto simp: fix_file_io_def Let_def
      split: option.splits if_splits sum.splits dest: write_io_failed)

lemma count_fix_io_failed:
  "count_fix_io io fix st = Inl ew \<Longrightarrow> write_failed io ew"
  by (auto simp: count_fix_io_def split: sum.splits dest: fix_file_io_failed)

lemma apply_fixes_io_failed:
  "apply_fixes_io io fs st = Inl ew \<Longrightarrow> write_failed io ew"
  unfolding apply_fixes_io_def
  by (rule for_io_failed [of "count_fix_io io" ew io fs st])
     (auto dest: count_fix_io_failed)

lemma fix_agent_types_io_failed:
  "fix_agent_types_io io script_dir st = Inl ew \<Longrightarrow> write_failed io ew"
  by (auto simp: fix_agent_types_io_def Let_def
      split: option.splits if_splits sum.splits dest: write_io_failed)

lemma fix_observatory_io_failed:
  "fix_observatory_io io script_dir st = Inl ew \<Longrightarrow> write_failed io ew"
  by (auto simp: fix_observatory_io_def Let_def
      split: option.splits if_splits sum.splits dest: write_io_failed)

lemma typescript_main_io_failed:
  "typescript_main_io io script_dir w = Inl ew \<Longrightarrow> write_failed io ew"
  by (auto simp: typescript_main_io_def split: sum.splits
      dest: apply_fixes_io_failed fix_agent_types_io_failed fix_observatory_io_failed)

lemma fix_tenant_io_failed:
  "fix_tenant_io io script_dir w = Inl ew \<Longrightarrow> write_failed io ew"
  by (auto simp: fix_tenant_io_def Let_def
      split: option.splits if_splits sum.splits dest: write_io_failed)

lemma fix_regex_io_failed:
  "fix_regex_io io script_dir w = Inl ew \<Longrightarrow>
     ew = (FileNotFoundError (router_path script_dir), print Fixing_router_patterns w) \<or>
     write_failed io ew"
  by (auto simp: fix_regex_io_def Let_def read_file_def
      split: option.splits if_splits sum.splits dest: write_io_failed fix_tenant_io_failed)

lemma add_declaration_io_failed:
  "add_declaration_io io file_path content w = Inl ew \<Longrightarrow> write_failed io ew"
  by (auto simp: add_declaration_io_def Let_def
      split: option.splits if_splits sum.splits dest: write_io_failed)

lemma check_manually_io_failed:
  "check_manually_io io file_path content w = Inl ew \<Longrightarrow> write_failed io ew"
  by (auto simp: check_manually_io_def Let_def
      split: option.splits if_splits sum.splits dest: add_declaration_io_failed)

lemma apply_fix_io_failed:
  "apply_fix_io io fix w = Inl ew \<Longrightarrow> write_failed io ew"
  by (auto simp: apply_fix_io_def Let_def
      split: option.splits if_splits sum.splits dest: write_io_failed check_manually_io_failed)

lemma fix_const_errors_io_failed:
  "fix_const_errors_io io w = Inl ew \<Longrightarrow> write_failed io ew"
  unfolding fix_const_errors_io_def
  by (rule for_io_failed [of "apply_fix_io io" ew io const_error_fixes w])
     (auto dest: apply_fix_io_failed)

lemma const_errors_main_io_failed:
  "const_errors_main_io io w = Inl ew \<Longrightarrow> write_failed io ew"
  by (auto simp: const_errors_main_io_def split: sum.splits dest: fix_const_errors_io_failed)








text \<open>Without errors the run is the one given first.\<close>

lemma typescript_main_io_no_faults:
  "typescript_main_io no_faults script_dir w = Inr (typescript_main script_dir w)"
proof (cases "typescript_main_io no_faults script_dir w")
  case (Inl ew)
  then have "write_failed no_faults ew" by (rule typescript_main_io_failed)
  then show ?thesis by (simp add: write_failed_def no_faults_def)
next
  case (Inr w')
  then show ?thesis by (simp add: typescript_main_io_Inr)
qed

lemma build_main_io_no_faults:
  "build_main_io no_faults script_dir w = Inr (build_main script_dir w)"
proof (cases "build_main_io no_faults script_dir w")
  case (Inl ew)
  then have "write_failed no_faults ew" by (rule build_main_io_failed)
  then show ?thesis by (simp add: write_failed_def no_faults_def)
next
  case (Inr w')
  then show ?thesis by (simp add: build_main_io_Inr)
qed

lemma const_errors_main_io_no_faults:
  "const_errors_main_io no_faults w = Inr (const_errors_main w)"
proof (cases "const_errors_main_io no_faults w")
  case (Inl ew)
  then have "write_failed no_faults ew" by (rule const_errors_main_io_failed)
  then show ?thesis by (simp add: write_failed_def no_faults_def)
next
  case (Inr w')
  then show ?thesis by (simp add: const_errors_main_io_Inr)
qed

lemma fix_regex_io_no_faults:
  "fix_regex_io no_faults script_dir w = fix_regex script_dir w"
proof (cases "fix_regex_io no_faults script_dir w")
  case (Inl ew)
  from fix_regex_io_failed [OF this] have
    ew: "ew = (FileNotFoundError (router_path script_dir), print Fixing_router_patterns w)"
    by (auto simp: write_failed_def no_faults_def)
  have "files w (router_path script_dir) = None"
  proof (cases "files w (router_path script_dir)")
    case (Some content)
    with Inl show ?thesis
      by (auto simp: fix_regex_io_def read_file_def print_simps Let_def write_io_no_faults
          fix_tenant_io_def path_exists_def split: sum.splits option.splits if_splits)
  qed simp
  then show ?thesis using Inl ew
    by (simp add: fix_regex_def read_file_def print_simps)
next
  case (Inr w')
  then show ?thesis by (simp add: fix_regex_io_Inr)
qed

section \<open>The claims\<close>





text \<open>
  Claim C4. When the backward scan from line \<open>i\<close> for a line containing \<^verbatim>\<open>if (\<close> runs
  past the start of the input (the loop ends with \<open>j < 0\<close>), nothing is spliced in: the
  output begins with lines \<open>0..i\<close> of the input exactly as they were, and the loop goes
  on with line \<open>i + 1\<close>, which is not skipped.
\<close>

theorem C4_unresolved_context_lines_unchanged:
  assumes "i < length lines" and "find_if lines (int i - 1) < 0"
  shows "fix_loop lines 0 [] = take (Suc i) lines @ fix_loop lines (Suc i) []"
  using fix_loop_no_if_prefix [OF assms(2), of "Suc i"] assms(1) by simp

theorem C4_witness:
  "else_context [''const nodes = x'', ''} else {'', ''y''] 1 \<and>
   find_if [''const nodes = x'', ''} else {'', ''y''] (int 1 - 1) < 0 \<and>
   fix_loop [''const nodes = x'', ''} else {'', ''y''] 0 [] =
     [''const nodes = x'', ''} else {'', ''y'']"
proof -
  let ?L = "[''const nodes = x'', ''} else {'', ''y'']"
  have ctx: "else_context ?L 1" by code_simp
  have len: "1 < length ?L" by simp
  have scan: "find_if ?L (int 1 - 1) < 0" by code_simp
  have rest: "fix_loop ?L (Suc 1) [] = [''y'']" by code_simp
  from C4_unresolved_context_lines_unchanged [OF len scan] rest
  have "fix_loop ?L 0 [] = ?L" by simp
  with ctx scan show ?thesis by simp
qed

text \<open>
  Claim C5, as the specification states it, fails: the rule fires only when the line
  before \<^verbatim>\<open>} else {\<close> mentions \<^verbatim>\<open>const nodes\<close> or \<^verbatim>\<open>nodes =\<close>. On the three lines of
  the scenario the output is the input and \<^verbatim>\<open>fixed_content != content\<close> is false.
\<close>

theorem C5_counterexample:
  "fix_loop [''if (x) {'', ''const y = f()'', ''} else {''] 0 [] =
     [''if (x) {'', ''const y = f()'', ''} else {''] \<and>
   fixed_content_of (join_nl [''if (x) {'', ''const y = f()'', ''} else {'']) =
     join_nl [''if (x) {'', ''const y = f()'', ''} else {'']"
  by code_simp

text \<open>
  Claim C5, amended. With \<^verbatim>\<open>const nodes = f()\<close> as the middle line the rule fires: the
  first two lines stay, and the \<^verbatim>\<open>} else {\<close> line is replaced by five lines: the stripped
  \<^verbatim>\<open>if (\<close> line again, the two fixed branch bodies around \<^verbatim>\<open>} else {\<close>, and a closing
  brace. The text differs from the input, so the file is written.
\<close>

theorem C5_nodes_line_is_repaired:
  "fixed_content_of (join_nl [''if (x) {'', ''const nodes = f()'', ''} else {'']) =
     join_nl [''if (x) {'', ''const nodes = f()'', ''if (x) {'',
       ''        const nodes = await this.getTemplateNodes(templateId);'',
       ''      } else {'',
       ''        const nodes = await this.getTenantFlowNodes(undefined, 1000);'',
       ''      }''] \<and>
   fixed_content_of (join_nl [''if (x) {'', ''const nodes = f()'', ''} else {'']) \<noteq>
     join_nl [''if (x) {'', ''const nodes = f()'', ''} else {'']"
  by code_simp

text \<open>
  Claim C2 asks that a file whose text the transformation leaves unchanged is not written.
  The observatory block of \<^verbatim>\<open>final-typescript-fixes.py\<close> and \<^verbatim>\<open>fix-regex.py\<close> open their
  file for writing whenever it exists, without comparing texts. Here the handler holds one
  line that the pass leaves as it is, and router.ts holds no pattern to fix: both files
  are opened for writing, and the handler is reported and counted as fixed.
\<close>

theorem C2_unchanged_text_is_written:
  "wrap_case_declarations ''const a = 1;'' = ''const a = 1;'' \<and>
   writes (fst (fix_observatory ''scripts''
     (\<lparr>files = [''scripts/../lambda/observatory-api/handler.ts'' \<mapsto> ''const a = 1;''],
       writes = [], console = []\<rparr>, 0))) = [''scripts/../lambda/observatory-api/handler.ts''] \<and>
   console (fst (fix_observatory ''scripts''
     (\<lparr>files = [''scripts/../lambda/observatory-api/handler.ts'' \<mapsto> ''const a = 1;''],
       writes = [], console = []\<rparr>, 0))) = [Fixed ''scripts/../lambda/observatory-api/handler.ts''] \<and>
   snd (fix_observatory ''scripts''
     (\<lparr>files = [''scripts/../lambda/observatory-api/handler.ts'' \<mapsto> ''const a = 1;''],
       writes = [], console = []\<rparr>, 0)) = 1 \<and>
   writes (final_world (fix_regex ''scripts''
      \<lparr>files = [''scripts/../lambda/api/router.ts'' \<mapsto> ''abc''],
       writes = [], console = []\<rparr>)) = [''scripts/../lambda/api/router.ts''] \<and>
   files (final_world (fix_regex ''scripts''
      \<lparr>files = [''scripts/../lambda/api/router.ts'' \<mapsto> ''abc''],
       writes = [], console = []\<rparr>)) ''scripts/../lambda/api/router.ts'' = Some ''abc''"
  by (simp add: fix_observatory_def observatory_path_scripts wrap_plain write_file_writes
      write_file_console print_simps fix_regex_def read_file_def router_path_scripts
      tenant_path_scripts final_world_def replace_plain1 replace_plain2 fix_tenant_def
      path_exists_def write_file_files Let_def)

text \<open>
  Claim C6 asks that a missing target is skipped and the remaining files are still
  processed. \<^verbatim>\<open>fix-regex.py\<close> opens router.ts without testing that it exists: when it is
  missing, \<^verbatim>\<open>FileNotFoundError\<close> escapes and tenant.ts, which exists and holds a pattern
  to fix, is left as it was.
\<close>

theorem C6_router_missing:
  "raised (fix_regex ''scripts''
      \<lparr>files = [''scripts/../lambda/api/middleware/tenant.ts'' \<mapsto> ''a'' @ bs @ ''/b''],
       writes = [], console = []\<rparr>)
     = Some (FileNotFoundError ''scripts/../lambda/api/router.ts'') \<and>
   files (final_world (fix_regex ''scripts''
      \<lparr>files = [''scripts/../lambda/api/middleware/tenant.ts'' \<mapsto> ''a'' @ bs @ ''/b''],
       writes = [], console = []\<rparr>)) ''scripts/../lambda/api/middleware/tenant.ts''
     = Some (''a'' @ bs @ ''/b'') \<and>
   writes (final_world (fix_regex ''scripts''
      \<lparr>files = [''scripts/../lambda/api/middleware/tenant.ts'' \<mapsto> ''a'' @ bs @ ''/b''],
       writes = [], console = []\<rparr>)) = []"
  by (simp add: fix_regex_def read_file_def router_path_scripts raised_def final_world_def print_def)





text \<open>
  Claim C10, as stated, fails for a case line inside a switch in two ways. The flag
  \<open>in_switch\<close> is cleared by any line that contains \<^verbatim>\<open>}\<close> and not \<^verbatim>\<open>case\<close>, such as the
  closing brace of an \<^verbatim>\<open>if\<close> block inside the switch, and later case lines are then left
  alone; and a case line that itself contains \<^verbatim>\<open>switch\<close> and \<^verbatim>\<open>{\<close> takes the first branch of
  the loop. In both runs below the declaration after the case line stays single.
\<close>

theorem C10_counterexample:
  "wrap_cases False
     [''switch (kind) {'', ''  case 1:'', ''    if (a) { b(); }'', ''    break;'',
      ''  case 2:'', ''    const y = 1;'', ''}''] =
     [''switch (kind) {'', ''  case 1:'', ''    if (a) { b(); }'', ''    break;'',
      ''  case 2:'', ''    const y = 1;'', ''}''] \<and>
   wrap_cases True [''  case Kind.switchTab: {'', ''    const y = 1;''] =
     [''  case Kind.switchTab: {'', ''    const y = 1;'']"
  by code_simp

text \<open>
  Claim C10, amended. When the loop reaches a line with \<open>in_switch\<close> set, the line does
  not contain both \<^verbatim>\<open>switch\<close> and \<^verbatim>\<open>{\<close>, its stripped text starts with \<^verbatim>\<open>case\<close>, it contains
  a colon, and the stripped text of the next line starts with \<^verbatim>\<open>const \<close>, \<^verbatim>\<open>let \<close> or
  \<^verbatim>\<open>var \<close>, then the output is: the case line; the declaration line with its stripped text
  replaced by eight spaces and \<^verbatim>\<open>{\<close> (a line that strips to \<^verbatim>\<open>{\<close>); the declaration
  indented by eight spaces; the declaration line as it was; and then the output of the
  loop for the lines after the declaration. Nothing else is inserted, so no closing brace.
\<close>

theorem C10_case_declaration_is_doubled:
  assumes "in_switch"
    and "\<not> (contains ''switch'' line \<and> contains ''{'' line)"
    and "startswith (strip line) ''case''" and "contains '':'' line"
    and "startswith_any (strip nxt) [''const '', ''let '', ''var '']"
  shows "wrap_cases in_switch (line # nxt # rest) =
      line # replace nxt (strip nxt) ''        {'' # (''        '' @ strip nxt) # nxt #
        wrap_cases (if contains ''switch'' nxt \<and> contains ''{'' nxt then True
                    else if contains ''}'' nxt \<and> \<not> contains ''case'' nxt then False
                    else True) rest \<and>
    strip (replace nxt (strip nxt) ''        {'') = ''{''"
proof -
  have c: "contains ''case'' line" using assms(3) by (rule startswith_strip_contains)
  have d: "is_decl nxt" using assms(5) by (simp add: is_decl_def)
  have f: "fires in_switch line (nxt # rest)"
    using assms c d by (simp add: fires_def opener_def closer_def)
  have n: "next_state in_switch nxt =
      (if contains ''switch'' nxt \<and> contains ''{'' nxt then True
       else if contains ''}'' nxt \<and> \<not> contains ''case'' nxt then False else True)"
    using assms(1) by (simp add: next_state_def opener_def closer_def)
  have "strip (replace nxt (strip nxt) (''        '' @ ''{'')) = ''{''"
    using d blank_spaces by (rule brace_line(3))
  then have b: "strip (replace nxt (strip nxt) ''        {'') = ''{''" by simp
  show ?thesis using wrap_cases_fired [OF f] n b by simp
qed

theorem C10_witness:
  "wrap_cases True [''  case 1:'', ''    const a = 1;'', ''    break;'', ''}''] =
     [''  case 1:'', ''            {'', ''        const a = 1;'', ''    const a = 1;'',
      ''    break;'', ''}'']"
proof -
  have 1: "\<not> (contains ''switch'' ''  case 1:'' \<and> contains ''{'' ''  case 1:'')" by code_simp
  have 2: "startswith (strip ''  case 1:'') ''case''" by code_simp
  have 3: "contains '':'' ''  case 1:''" by code_simp
  have 4: "startswith_any (strip ''    const a = 1;'') [''const '', ''let '', ''var '']" by code_simp
  have 5: "replace ''    const a = 1;'' (strip ''    const a = 1;'') ''        {'' = ''            {''"
    by code_simp
  have 6: "strip ''    const a = 1;'' = ''const a = 1;''" by code_simp
  have 7: "wrap_cases (if contains ''switch'' ''    const a = 1;'' \<and> contains ''{'' ''    const a = 1;'' then True
                    else if contains ''}'' ''    const a = 1;'' \<and> \<not> contains ''case'' ''    const a = 1;'' then False
                    else True) [''    break;'', ''}''] = [''    break;'', ''}'']" by code_simp
  from C10_case_declaration_is_doubled [OF TrueI 1 2 3 4, of "[''    break;'', ''}'']"]
  show ?thesis unfolding 5 6 7 by simp
qed


text \<open>
  For a file that exists, \<open>fix_file\<close> returns \<open>True\<close> exactly when the text after
  all patterns differs from the text read; when the two are equal the state is left as it
  was (no write, no \<^verbatim>\<open>Fixed\<close> line, and \<open>main\<close> does not count the file). In
  \<^verbatim>\<open>fix_const_errors\<close> the branch that writes and prints \<^verbatim>\<open>Applied fix\<close> is taken exactly
  when \<^verbatim>\<open>new_content != content\<close>; a substitution that leaves the text equal goes to the
  \<^verbatim>\<open>No match found\<close> branch. Whether a pattern matched plays no part.
\<close>

theorem fix_file_changed_is_comparison:
  "(files w file_path = Some original_content \<longrightarrow>
      snd (fix_file file_path patterns w) =
        (apply_patterns patterns original_content \<noteq> original_content) \<and>
      (apply_patterns patterns original_content = original_content \<longrightarrow>
         fst (fix_file file_path patterns w) = w) \<and>
      (apply_patterns patterns original_content \<noteq> original_content \<longrightarrow>
         fst (fix_file file_path patterns w) =
           print (Fixed file_path)
             (write_file file_path (apply_patterns patterns original_content) w))) \<and>
   (files w file_path = Some content \<longrightarrow>
      (re_sub search replacement content = content \<longrightarrow>
         apply_fix (file_path, search, replacement) w =
           check_manually file_path content
             (print (No_match_found file_path) (print (Fixing file_path) w))) \<and>
      (re_sub search replacement content \<noteq> content \<longrightarrow>
         apply_fix (file_path, search, replacement) w =
           print (Applied_fix file_path)
             (write_file file_path (re_sub search replacement content)
               (print (Fixing file_path) w))))"
  by (simp add: fix_file_def apply_fix_def Let_def)


text \<open>
  The fourth entry of \<^verbatim>\<open>fixes\<close> in \<^verbatim>\<open>fix_final_const_errors.py\<close> replaces a declaration by
  itself. On a file that holds the declaration the pattern matches, the text stays equal,
  nothing is written and the file is reported under \<^verbatim>\<open>No match found\<close>.
\<close>

theorem self_replacing_rule_is_not_reported:
  "re_search (lit ''const expressionAttributeValues: Record<string, any> = {};'') False None
     ''const expressionAttributeValues: Record<string, any> = {};'' \<noteq> None \<and>
   snd (fix_file ''src/lib/api/lab.ts''
     [(lit ''const expressionAttributeValues: Record<string, any> = {};'',
       [Txt ''const expressionAttributeValues: Record<string, any> = {};''])]
     \<lparr>files = [''src/lib/api/lab.ts'' \<mapsto> ''const expressionAttributeValues: Record<string, any> = {};''],
      writes = [], console = []\<rparr>) = False \<and>
   writes (apply_fix (''src/lib/api/lab.ts'',
       lit ''const expressionAttributeValues: Record<string, any> = {};'',
       [Txt ''const expressionAttributeValues: Record<string, any> = {};''])
     \<lparr>files = [''src/lib/api/lab.ts'' \<mapsto> ''const expressionAttributeValues: Record<string, any> = {};''],
      writes = [], console = []\<rparr>) = [] \<and>
   console (apply_fix (''src/lib/api/lab.ts'',
       lit ''const expressionAttributeValues: Record<string, any> = {};'',
       [Txt ''const expressionAttributeValues: Record<string, any> = {};''])
     \<lparr>files = [''src/lib/api/lab.ts'' \<mapsto> ''const expressionAttributeValues: Record<string, any> = {};''],
      writes = [], console = []\<rparr>) =
     [Fixing ''src/lib/api/lab.ts'', No_match_found ''src/lib/api/lab.ts'']"
proof -
  let ?c = "''const expressionAttributeValues: Record<string, any> = {};''"
  let ?f = "''src/lib/api/lab.ts''"
  let ?w = "\<lparr>files = [?f \<mapsto> ?c], writes = [], console = []\<rparr>"
  have fires: "re_search (lit ?c) False None ?c \<noteq> None"
    by (simp add: match_at_lit)
  have same: "re_sub (lit ?c) [Txt ?c] ?c = ?c"
    by (simp add: re_sub_lit)
  have same2: "apply_patterns [(lit ?c, [Txt ?c])] ?c = ?c"
    using same by simp
  have there: "files ?w ?f = Some ?c" by simp
  have guard: "contains ''const expressionAttributeValues:'' ?c"
    by code_simp
  have lab: "contains ''lab.ts'' ?f" by code_simp
  have flow: "\<not> contains ''flow-nodes.ts'' ?f" by code_simp
  note inst = fix_file_changed_is_comparison [of ?w ?f ?c "[(lit ?c, [Txt ?c])]" ?c "lit ?c" "[Txt ?c]"]
  from inst there same2 have 1: "snd (fix_file ?f [(lit ?c, [Txt ?c])] ?w) = False"
    by blast
  from inst there same have 2: "apply_fix (?f, lit ?c, [Txt ?c]) ?w =
      check_manually ?f ?c (print (No_match_found ?f) (print (Fixing ?f) ?w))"
    by blast
  have 3: "check_manually ?f ?c (print (No_match_found ?f) (print (Fixing ?f) ?w)) =
      print (No_match_found ?f) (print (Fixing ?f) ?w)"
    using guard lab flow by (simp add: check_manually_def add_declaration_def)
  show ?thesis
    using fires 1 unfolding 2 3 by (simp add: print_def)
qed

text \<open>
  Claim C3 asks that every file processed is reported as fixed only when its final text
  differs from its original text. \<open>fix_file\<close> and \<^verbatim>\<open>fix_const_errors\<close> compare the two texts,
  as the two lemmas above show. The two last blocks of \<^verbatim>\<open>main\<close> in
  \<^verbatim>\<open>final-typescript-fixes.py\<close> do not: types.ts holds no interface and the handler holds one
  line that the pass leaves as it is, both files keep their text, and both are printed as
  fixed and counted.
\<close>

theorem C3_unchanged_files_reported_fixed:
  "wrap_case_declarations ''const a = 1;'' = ''const a = 1;'' \<and>
   files (typescript_main ''scripts''
     \<lparr>files = [''scripts/../src/components/agent-builder/types.ts'' \<mapsto> ''type A = B;'',
                ''scripts/../lambda/observatory-api/handler.ts'' \<mapsto> ''const a = 1;''],
      writes = [], console = []\<rparr>) ''scripts/../src/components/agent-builder/types.ts''
     = Some ''type A = B;'' \<and>
   files (typescript_main ''scripts''
     \<lparr>files = [''scripts/../src/components/agent-builder/types.ts'' \<mapsto> ''type A = B;'',
                ''scripts/../lambda/observatory-api/handler.ts'' \<mapsto> ''const a = 1;''],
      writes = [], console = []\<rparr>) ''scripts/../lambda/observatory-api/handler.ts''
     = Some ''const a = 1;'' \<and>
   console (typescript_main ''scripts''
     \<lparr>files = [''scripts/../src/components/agent-builder/types.ts'' \<mapsto> ''type A = B;'',
                ''scripts/../lambda/observatory-api/handler.ts'' \<mapsto> ''const a = 1;''],
      writes = [], console = []\<rparr>) =
     [Applying_final_typescript_fixes,
      Fixed ''scripts/../src/components/agent-builder/types.ts'',
      Fixed ''scripts/../lambda/observatory-api/handler.ts'',
      Typescript_fixes_completed, Files_fixed 2, Run_npm_lint]"
  by code_simp



text \<open>
  Claim C8. The rule that adds the missing declaration is guarded by tests on the whole
  text. When the text has no use of \<^verbatim>\<open>expressionAttributeValues[\<close>, or already holds the
  declaration, or lacks the comment that marks the place, the rule leaves the state as it
  was: nothing is written or printed. When the rule does apply, the text it writes holds
  the declaration, so on that text the guard is false and the rule is skipped.
\<close>

theorem C8_guard_false_rule_is_skipped:
  "(\<not> contains ''expressionAttributeValues['' content \<or>
    contains ''const expressionAttributeValues:'' content \<or>
    str_find content ''// Default to scan with filters'' = - 1 \<longrightarrow>
      add_declaration file_path content w = w) \<and>
   (add_declaration file_path content w \<noteq> w \<longrightarrow>
      (\<exists>new_content.
         files (add_declaration file_path content w) file_path = Some new_content \<and>
         (\<forall>w'. add_declaration file_path new_content w' = w')))"
proof (intro conjI impI)
  assume "\<not> contains ''expressionAttributeValues['' content \<or>
    contains ''const expressionAttributeValues:'' content \<or>
    str_find content ''// Default to scan with filters'' = - 1"
  then show "add_declaration file_path content w = w"
    by (auto simp: add_declaration_def)
next
  assume "add_declaration file_path content w \<noteq> w"
  from add_declaration_then_skipped [OF this] obtain new_content where
    n: "files (add_declaration file_path content w) file_path = Some new_content"
       "contains ''const expressionAttributeValues:'' new_content" by blast
  from n(2) have "\<forall>w'. add_declaration file_path new_content w' = w'"
    by (simp add: add_declaration_def)
  with n(1) show "\<exists>new_content.
      files (add_declaration file_path content w) file_path = Some new_content \<and>
      (\<forall>w'. add_declaration file_path new_content w' = w')" by blast
qed

theorem C8_guard_witness:
  "contains ''const expressionAttributeValues:''
     ''const expressionAttributeValues: X = {}; expressionAttributeValues[k] = v;'' \<and>
   add_declaration ''src/lib/api/lab.ts''
     ''const expressionAttributeValues: X = {}; expressionAttributeValues[k] = v;''
     \<lparr>files = Map.empty, writes = [], console = []\<rparr> =
     \<lparr>files = Map.empty, writes = [], console = []\<rparr>"
proof -
  have g: "contains ''const expressionAttributeValues:''
     ''const expressionAttributeValues: X = {}; expressionAttributeValues[k] = v;''"
    by code_simp
  with C8_guard_false_rule_is_skipped
    [of "''const expressionAttributeValues: X = {}; expressionAttributeValues[k] = v;''"
        "''src/lib/api/lab.ts''" "\<lparr>files = Map.empty, writes = [], console = []\<rparr>"]
  show ?thesis by blast
qed

section \<open>Further properties\<close>

text \<open>
  In \<^verbatim>\<open>final-typescript-fixes.py\<close> an entry of the fixes list whose file does not exist is
  skipped, wherever it stands in the list: the files, the console and the count of fixed files
  after the loop are those of the loop over the list without that entry. The entries before it
  cannot create the file, since \<^verbatim>\<open>fix_file\<close> only writes a file that it has read.
\<close>

theorem missing_file_is_skipped:
  assumes "files (fst st) file_path = None"
  shows "apply_fixes (earlier @ (file_path, patterns) # later) st = apply_fixes (earlier @ later) st"
proof -
  let ?mid = "apply_fixes earlier st"
  have "files (fst ?mid) file_path = None" using assms by (rule apply_fixes_keeps_missing)
  then have "apply_fixes ((file_path, patterns) # later) ?mid = apply_fixes later ?mid"
    by (simp add: apply_fixes_Cons fix_file_missing)
  then show ?thesis by (simp add: apply_fixes_append)
qed

theorem missing_file_is_skipped_example:
  "apply_fixes ([] @ (''missing.ts'', common_patterns) # [(''a.ts'', [(lit ''<any>'', [Txt ''<unknown>''])])])
     (\<lparr>files = [''a.ts'' \<mapsto> ''x<any>''], writes = [], console = []\<rparr>, 0) =
   apply_fixes ([] @ [(''a.ts'', [(lit ''<any>'', [Txt ''<unknown>''])])])
     (\<lparr>files = [''a.ts'' \<mapsto> ''x<any>''], writes = [], console = []\<rparr>, 0) \<and>
   snd (apply_fixes [(''a.ts'', [(lit ''<any>'', [Txt ''<unknown>''])])]
     (\<lparr>files = [''a.ts'' \<mapsto> ''x<any>''], writes = [], console = []\<rparr>, 0)) = 1"
proof -
  let ?w = "\<lparr>files = [''a.ts'' \<mapsto> ''x<any>''], writes = [], console = []\<rparr>"
  have miss: "files (fst (?w, 0::int)) ''missing.ts'' = None" by simp
  have sub: "re_sub (lit ''<any>'') [Txt ''<unknown>''] ''x<any>'' = ''x<unknown>''"
    by (simp add: re_sub_lit)
  have cnt: "snd (apply_fixes [(''a.ts'', [(lit ''<any>'', [Txt ''<unknown>''])])] (?w, 0)) = 1"
    by (simp add: apply_fixes_def fix_file_def sub)
  from missing_file_is_skipped [OF miss, of "[]" common_patterns
      "[(''a.ts'', [(lit ''<any>'', [Txt ''<unknown>''])])]"] cnt
  show ?thesis by simp
qed

end
